theory Spec2Isabelle
  imports Complex_Main
begin

section \<open>Strings\<close>

text \<open>
  The content script works on JavaScript strings. They are modelled as \<open>string\<close>
  (a list of characters), one character per code unit, so that \<open>length\<close> is
  \<^verbatim>\<open>.length\<close> and \<open>take n\<close> is \<^verbatim>\<open>.substring(0, n)\<close>.
  A character stands for the code unit of the same number, so the strings of the model
  are the JavaScript strings whose code units are below 256, and the character
  functions below are JavaScript's on these: the white space of \<^verbatim>\<open>trim\<close> and
  \<^verbatim>\<open>\s\<close> (tab, the line breaks, space and the no-break space U+00A0), the digits
  of \<^verbatim>\<open>\d\<close>, the letters of \<^verbatim>\<open>[a-zA-Z]\<close>, and the case mapping of
  \<^verbatim>\<open>toLowerCase\<close> on the ASCII and the Latin-1 capital letters.
\<close>

definition isWhitespace :: "char \<Rightarrow> bool" where
  "isWhitespace c =
     (c \<in> set [CHR 0x09, CHR 0x0A, CHR 0x0B, CHR 0x0C, CHR 0x0D, CHR 0x20, CHR 0xA0])"

definition isDigit :: "char \<Rightarrow> bool" where
  "isDigit c = (c \<in> set ''0123456789'')"

definition upperLetters :: string where
  "upperLetters = ''ABCDEFGHIJKLMNOPQRSTUVWXYZ''"

definition lowerLetters :: string where
  "lowerLetters = ''abcdefghijklmnopqrstuvwxyz''"

definition isLetter :: "char \<Rightarrow> bool" where
  "isLetter c = (c \<in> set upperLetters \<or> c \<in> set lowerLetters)"

text \<open>The capital letters of Latin-1 (U+00C0 to U+00DE without U+00D7) and their small forms.\<close>

definition latinCapitals :: string where
  "latinCapitals =
     [CHR 0xC0, CHR 0xC1, CHR 0xC2, CHR 0xC3, CHR 0xC4, CHR 0xC5, CHR 0xC6, CHR 0xC7,
      CHR 0xC8, CHR 0xC9, CHR 0xCA, CHR 0xCB, CHR 0xCC, CHR 0xCD, CHR 0xCE, CHR 0xCF,
      CHR 0xD0, CHR 0xD1, CHR 0xD2, CHR 0xD3, CHR 0xD4, CHR 0xD5, CHR 0xD6, CHR 0xD8,
      CHR 0xD9, CHR 0xDA, CHR 0xDB, CHR 0xDC, CHR 0xDD, CHR 0xDE]"

definition latinSmalls :: string where
  "latinSmalls =
     [CHR 0xE0, CHR 0xE1, CHR 0xE2, CHR 0xE3, CHR 0xE4, CHR 0xE5, CHR 0xE6, CHR 0xE7,
      CHR 0xE8, CHR 0xE9, CHR 0xEA, CHR 0xEB, CHR 0xEC, CHR 0xED, CHR 0xEE, CHR 0xEF,
      CHR 0xF0, CHR 0xF1, CHR 0xF2, CHR 0xF3, CHR 0xF4, CHR 0xF5, CHR 0xF6, CHR 0xF8,
      CHR 0xF9, CHR 0xFA, CHR 0xFB, CHR 0xFC, CHR 0xFD, CHR 0xFE]"

definition toLowerChar :: "char \<Rightarrow> char" where
  "toLowerChar c =
     (case map_of (zip (upperLetters @ latinCapitals) (lowerLetters @ latinSmalls)) c of
        Some l \<Rightarrow> l
      | None \<Rightarrow> c)"

definition toLowerCase :: "string \<Rightarrow> string" where
  "toLowerCase s = map toLowerChar s"

definition trim :: "string \<Rightarrow> string" where
  "trim s = rev (dropWhile isWhitespace (rev (dropWhile isWhitespace s)))"

fun startsWith :: "string \<Rightarrow> string \<Rightarrow> bool" where
  "startsWith s [] = True"
| "startsWith [] (p # ps) = False"
| "startsWith (c # cs) (p # ps) = (c = p \<and> startsWith cs ps)"

fun includesStr :: "string \<Rightarrow> string \<Rightarrow> bool" where
  "includesStr [] sub = startsWith [] sub"
| "includesStr (c # cs) sub = (startsWith (c # cs) sub \<or> includesStr cs sub)"

definition digitValue :: "char \<Rightarrow> nat" where
  "digitValue c =
     (case map_of (zip ''0123456789'' [0, 1, 2, 3, 4, 5, 6, 7, 8, 9]) c of
        Some d \<Rightarrow> d | None \<Rightarrow> 0)"

text \<open>\<^verbatim>\<open>parseInt\<close> on a string of decimal digits (what \<^verbatim>\<open>(\d+)\<close> captures).\<close>

definition parseInt :: "string \<Rightarrow> nat" where
  "parseInt ds = foldl (\<lambda>n c. 10 * n + digitValue c) 0 ds"

section \<open>Regular expressions\<close>

text \<open>
  The regular expressions of the script use literals, the classes \<^verbatim>\<open>\d\<close>, \<^verbatim>\<open>\s\<close>,
  \<^verbatim>\<open>.\<close> and \<^verbatim>\<open>[^"]\<close> under greedy quantifiers, optional groups, alternation,
  one capture group and the anchor \<^verbatim>\<open>$\<close>. \<open>rmatch\<close> is a backtracking matcher for
  them: it returns every way the expression can match at the start of the input, as
  (capture, rest of input), in the order in which a backtracking engine tries them, so
  the head is the match JavaScript reports. Every optional group of the script matches
  at least one character, so the rule that discards an empty iteration never applies.
\<close>

datatype cclass = Digit | Space | Dot | NotQuote

fun inClass :: "cclass \<Rightarrow> char \<Rightarrow> bool" where
  "inClass Digit c = isDigit c"
| "inClass Space c = isWhitespace c"
| "inClass Dot c = (c \<noteq> CHR 0x0A \<and> c \<noteq> CHR 0x0D)"
| "inClass NotQuote c = (c \<noteq> CHR 0x22)"

datatype rx =
    Eps
  | Lit string
  | Rep cclass nat "nat option"
  | Opt rx
  | Alt rx rx
  | Seq rx rx
  | Grp rx
  | Eos

type_synonym mstate = "string option \<times> string"

fun stripPrefix :: "bool \<Rightarrow> string \<Rightarrow> string \<Rightarrow> string option" where
  "stripPrefix ic [] s = Some s"
| "stripPrefix ic (p # ps) [] = None"
| "stripPrefix ic (p # ps) (c # cs) =
     (if (if ic then toLowerChar p = toLowerChar c else p = c)
      then stripPrefix ic ps cs else None)"

text \<open>How many leading characters of the input a class can take, at most \<open>hi\<close>.\<close>

fun spanClass :: "cclass \<Rightarrow> nat option \<Rightarrow> string \<Rightarrow> nat" where
  "spanClass cl hi [] = 0"
| "spanClass cl hi (c # cs) =
     (if hi = Some 0 \<or> \<not> inClass cl c then 0
      else Suc (spanClass cl (map_option (\<lambda>n. n - 1) hi) cs))"

text \<open>A greedy quantifier tries the longest run first, then gives characters back.\<close>

fun countdown :: "nat \<Rightarrow> nat \<Rightarrow> nat list" where
  "countdown lo 0 = (if lo = 0 then [0] else [])"
| "countdown lo (Suc n) = (if lo \<le> Suc n then Suc n # countdown lo n else [])"

fun rmatch :: "bool \<Rightarrow> rx \<Rightarrow> mstate \<Rightarrow> mstate list" where
  "rmatch ic Eps st = [st]"
| "rmatch ic (Lit p) (cap, s) =
     (case stripPrefix ic p s of None \<Rightarrow> [] | Some s' \<Rightarrow> [(cap, s')])"
| "rmatch ic (Rep cl lo hi) (cap, s) =
     map (\<lambda>k. (cap, drop k s)) (countdown lo (spanClass cl hi s))"
| "rmatch ic (Opt r) st = rmatch ic r st @ [st]"
| "rmatch ic (Alt a b) st = rmatch ic a st @ rmatch ic b st"
| "rmatch ic (Seq a b) st = concat (map (rmatch ic b) (rmatch ic a st))"
| "rmatch ic (Grp r) (cap, s) =
     map (\<lambda>(c, s'). (Some (take (length s - length s') s), s')) (rmatch ic r (cap, s))"
| "rmatch ic Eos (cap, s) = (if s = [] then [(cap, s)] else [])"

fun cat :: "rx list \<Rightarrow> rx" where
  "cat [] = Eps"
| "cat [r] = r"
| "cat (r # rs) = Seq r (cat rs)"

text \<open>A match: \<^verbatim>\<open>match[0]\<close> and \<^verbatim>\<open>match[1]\<close> (\<open>None\<close> for \<^verbatim>\<open>undefined\<close>).\<close>

record rmatchResult =
  matched :: string
  group1 :: "string option"

definition matchAt :: "bool \<Rightarrow> rx \<Rightarrow> string \<Rightarrow> rmatchResult option" where
  "matchAt ic r s =
     (case rmatch ic r (None, s) of
        [] \<Rightarrow> None
      | (cap, s') # _ \<Rightarrow> Some \<lparr>matched = take (length s - length s') s, group1 = cap\<rparr>)"

text \<open>\<^verbatim>\<open>text.match(pattern)\<close> without the \<^verbatim>\<open>g\<close> flag: the leftmost match.\<close>

fun regexMatch :: "bool \<Rightarrow> rx \<Rightarrow> string \<Rightarrow> rmatchResult option" where
  "regexMatch ic r [] = matchAt ic r []"
| "regexMatch ic r (c # cs) =
     (case matchAt ic r (c # cs) of Some m \<Rightarrow> Some m | None \<Rightarrow> regexMatch ic r cs)"

text \<open>
  \<^verbatim>\<open>matchAll\<close>, and \<^verbatim>\<open>match\<close> with the \<^verbatim>\<open>g\<close> flag: all matches from left to
  right, each search starting where the previous match ended (one character further
  after an empty match). The counter is the number of characters still covered by the
  previous match.
\<close>

fun scanAll :: "bool \<Rightarrow> rx \<Rightarrow> nat \<Rightarrow> string \<Rightarrow> rmatchResult list" where
  "scanAll ic r (Suc k) [] = []"
| "scanAll ic r (Suc k) (c # cs) = scanAll ic r k cs"
| "scanAll ic r 0 [] = (case matchAt ic r [] of None \<Rightarrow> [] | Some m \<Rightarrow> [m])"
| "scanAll ic r 0 (c # cs) =
     (case matchAt ic r (c # cs) of
        None \<Rightarrow> scanAll ic r 0 cs
      | Some m \<Rightarrow> m # scanAll ic r (length (matched m) - 1) cs)"

definition matchAll :: "bool \<Rightarrow> rx \<Rightarrow> string \<Rightarrow> rmatchResult list" where
  "matchAll ic r s = scanAll ic r 0 s"

text \<open>Building blocks: \<^verbatim>\<open>(\d+)\<close>, \<^verbatim>\<open>\s*\<close>, and the backslash of a pattern's source text.\<close>

definition digits :: rx where
  "digits = Grp (Rep Digit 1 None)"

definition ws :: rx where
  "ws = Rep Space 0 None"

definition bs :: string where
  "bs = [CHR 0x5C]"

text \<open>\<^verbatim>\<open>parseInt(match[1]) || 1\<close>: a missing group (NaN) and the value 0 both give 1.\<close>

definition matchValue :: "rmatchResult \<Rightarrow> nat" where
  "matchValue m =
     (case group1 m of
        None \<Rightarrow> 1
      | Some ds \<Rightarrow> (if parseInt ds = 0 then 1 else parseInt ds))"

section \<open>Name validation\<close>

text \<open>
  \<^verbatim>\<open>isValidProfileName\<close>. The tests \<^verbatim>\<open>/^\d+$/\<close>, \<^verbatim>\<open>/^[^a-zA-Z]*$/\<close>,
  \<^verbatim>\<open>/[a-zA-Z]/\<close> and \<^verbatim>\<open>/^\s*$/\<close> are written as list predicates; the
  case-insensitive test against the closed word list compares the lower-cased name.
\<close>

definition uiWords :: "string list" where
  "uiWords = [''show'', ''view'', ''see'', ''all'', ''more'', ''less'', ''edit'', ''update'',
              ''follow'', ''connect'', ''message'', ''home'', ''about'', ''contact'']"

definition isValidProfileName :: "string \<Rightarrow> bool" where
  "isValidProfileName name =
     (if name = [] then False
      else
        (let cleanName = trim name; lower = toLowerCase cleanName
         in 2 \<le> length cleanName \<and>
            length cleanName \<le> 100 \<and>
            \<not> includesStr lower ''linkedin'' \<and>
            \<not> includesStr lower ''profile'' \<and>
            \<not> includesStr lower ''activity'' \<and>
            \<not> includesStr lower ''recent'' \<and>
            \<not> includesStr lower ''connection'' \<and>
            \<not> includesStr lower ''view'' \<and>
            \<not> includesStr lower ''show'' \<and>
            \<not> includesStr lower ''edit'' \<and>
            \<not> includesStr lower ''update'' \<and>
            \<not> includesStr lower ''see all'' \<and>
            \<not> includesStr lower ''see more'' \<and>
            \<not> includesStr lower ''follow'' \<and>
            \<not> includesStr lower ''connect'' \<and>
            \<not> includesStr lower ''message'' \<and>
            \<not> includesStr cleanName ''('' \<and>
            \<not> includesStr cleanName '')'' \<and>
            \<not> includesStr cleanName ''['' \<and>
            \<not> includesStr cleanName '']'' \<and>
            \<not> (cleanName \<noteq> [] \<and> list_all isDigit cleanName) \<and>
            \<not> list_all (\<lambda>c. \<not> isLetter c) cleanName \<and>
            \<not> includesStr cleanName ''@'' \<and>
            \<not> includesStr cleanName ''www.'' \<and>
            \<not> includesStr cleanName ''http'' \<and>
            \<not> (lower \<in> set uiWords) \<and>
            list_ex isLetter cleanName \<and>
            \<not> list_all isWhitespace cleanName))"

text \<open>The name check of the emergency pass (\<^verbatim>\<open>performEmergencyAnalysis\<close>).\<close>

definition emergencyNameCheck :: "string \<Rightarrow> bool" where
  "emergencyNameCheck text = (3 < length text \<and> length text < 60 \<and> isValidProfileName text)"

section \<open>Relative-time phrases\<close>

record timeResult =
  isRecent :: bool
  timeStr :: string

record timePattern =
  pattern :: rx
  ignoreCase :: bool
  source :: string
  maxValue :: nat
  unitName :: string

text \<open>The list \<^verbatim>\<open>recentPatterns\<close> of \<^verbatim>\<open>parseTimeFromText\<close>, in its order.\<close>

definition recentPatterns :: "timePattern list" where
  "recentPatterns =
   [\<lparr>pattern = cat [digits, ws, Lit ''m'', Opt (Alt (Lit ''in'') (Lit ''inute'')), Opt (Lit ''s''),
                    ws, Lit ''ago''],
     ignoreCase = False,
     source = ''('' @ bs @ ''d+)'' @ bs @ ''s*m(?:in|inute)?s?'' @ bs @ ''s*ago'',
     maxValue = 1440, unitName = ''minutes''\<rparr>,
    \<lparr>pattern = cat [digits, ws, Lit ''h'', Opt (Alt (Lit ''our'') (Lit ''r'')), Opt (Lit ''s''),
                    ws, Lit ''ago''],
     ignoreCase = False,
     source = ''('' @ bs @ ''d+)'' @ bs @ ''s*h(?:our|r)?s?'' @ bs @ ''s*ago'',
     maxValue = 24, unitName = ''hours''\<rparr>,
    \<lparr>pattern = cat [Lit ''1'', ws, Lit ''d'', Opt (Lit ''ay''), ws, Lit ''ago''],
     ignoreCase = False,
     source = ''1'' @ bs @ ''s*d(?:ay)?'' @ bs @ ''s*ago'',
     maxValue = 1, unitName = ''days''\<rparr>,
    \<lparr>pattern = Lit ''yesterday'',
     ignoreCase = True,
     source = ''yesterday'',
     maxValue = 1, unitName = ''days''\<rparr>,
    \<lparr>pattern = cat [digits, Lit ''h'', ws, Lit ''ago''],
     ignoreCase = False,
     source = ''('' @ bs @ ''d+)h'' @ bs @ ''s*ago'',
     maxValue = 24, unitName = ''hours''\<rparr>,
    \<lparr>pattern = cat [digits, Lit ''m'', ws, Lit ''ago''],
     ignoreCase = False,
     source = ''('' @ bs @ ''d+)m'' @ bs @ ''s*ago'',
     maxValue = 1440, unitName = ''minutes''\<rparr>,
    \<lparr>pattern = cat [digits, ws, Lit ''hr'', Opt (Lit ''s''), ws, Lit ''ago''],
     ignoreCase = False,
     source = ''('' @ bs @ ''d+)'' @ bs @ ''s*hrs?'' @ bs @ ''s*ago'',
     maxValue = 24, unitName = ''hours''\<rparr>,
    \<lparr>pattern = cat [digits, ws, Lit ''min'', Opt (Lit ''s''), ws, Lit ''ago''],
     ignoreCase = False,
     source = ''('' @ bs @ ''d+)'' @ bs @ ''s*mins?'' @ bs @ ''s*ago'',
     maxValue = 1440, unitName = ''minutes''\<rparr>,
    \<lparr>pattern = cat [Lit ''about'', ws, digits, ws, Lit ''hour'', Opt (Lit ''s''), ws, Lit ''ago''],
     ignoreCase = False,
     source = ''about'' @ bs @ ''s*('' @ bs @ ''d+)'' @ bs @ ''s*hours?'' @ bs @ ''s*ago'',
     maxValue = 24, unitName = ''hours''\<rparr>,
    \<lparr>pattern = cat [Lit ''about'', ws, digits, ws, Lit ''minute'', Opt (Lit ''s''), ws, Lit ''ago''],
     ignoreCase = False,
     source = ''about'' @ bs @ ''s*('' @ bs @ ''d+)'' @ bs @ ''s*minutes?'' @ bs @ ''s*ago'',
     maxValue = 1440, unitName = ''minutes''\<rparr>,
    \<lparr>pattern = cat [digits, ws, Lit ''h'', Eos],
     ignoreCase = False,
     source = ''('' @ bs @ ''d+)'' @ bs @ ''s*h$'',
     maxValue = 24, unitName = ''hours''\<rparr>,
    \<lparr>pattern = cat [digits, ws, Lit ''m'', Eos],
     ignoreCase = False,
     source = ''('' @ bs @ ''d+)'' @ bs @ ''s*m$'',
     maxValue = 1440, unitName = ''minutes''\<rparr>]"

text \<open>
  The loop of \<^verbatim>\<open>parseTimeFromText\<close> over the patterns: the first pattern that
  matches and passes its bound returns; a match above the bound goes on to the next
  pattern.
\<close>

fun parseTimeLoop :: "timePattern list \<Rightarrow> string \<Rightarrow> timeResult option" where
  "parseTimeLoop [] text = None"
| "parseTimeLoop (p # ps) text =
     (case regexMatch (ignoreCase p) (pattern p) text of
        None \<Rightarrow> parseTimeLoop ps text
      | Some m \<Rightarrow>
          (if unitName p = ''days'' \<or> includesStr (source p) ''yesterday''
           then Some \<lparr>isRecent = True, timeStr = ''Text: '' @ matched m\<rparr>
           else if matchValue m \<le> maxValue p
           then Some \<lparr>isRecent = True, timeStr = ''Text: '' @ matched m\<rparr>
           else parseTimeLoop ps text))"

definition parseTimeFromText :: "string \<Rightarrow> timeResult option" where
  "parseTimeFromText content = parseTimeLoop recentPatterns (toLowerCase content)"

section \<open>Fragments and the recency classifier\<close>

text \<open>
  A \<^verbatim>\<open>time\<close> element is read through three attributes; \<open>None\<close> is the \<^verbatim>\<open>null\<close>
  of \<^verbatim>\<open>getAttribute\<close>. A fragment is read through its text, the time element that
  \<^verbatim>\<open>findTimeElement\<close> locates for it (inside it or in its nearest known container), and
  the four media queries of \<^verbatim>\<open>extractPostFromElement\<close>.
\<close>

record timeElement =
  datetime :: "string option"
  ariaLabel :: "string option"
  titleAttr :: "string option"

record element =
  textContent :: string
  timeMarker :: "timeElement option"
  hasImage :: bool
  hasVideo :: bool
  hasArticle :: bool
  hasPoll :: bool

definition findTimeElement :: "element \<Rightarrow> timeElement option" where
  "findTimeElement el = timeMarker el"

text \<open>The attributes tried after \<^verbatim>\<open>datetime\<close>: \<^verbatim>\<open>aria-label\<close>, then \<^verbatim>\<open>title\<close>.\<close>

definition parseAttribute :: "string option \<Rightarrow> timeResult option" where
  "parseAttribute attr =
     (case attr of
        None \<Rightarrow> None
      | Some a \<Rightarrow> (if includesStr a ''ago'' then parseTimeFromText a else None))"

definition parseOtherAttributes :: "timeElement \<Rightarrow> timeResult option" where
  "parseOtherAttributes te =
     (case parseAttribute (ariaLabel te) of
        Some r \<Rightarrow> Some r
      | None \<Rightarrow> parseAttribute (titleAttr te))"

text \<open>
  \<^verbatim>\<open>parseTimeElement\<close>. Instants are milliseconds since the epoch. \<open>parseDate\<close> is
  \<^verbatim>\<open>new Date(s).getTime()\<close>, with \<open>None\<close> for an invalid date (NaN); \<open>now\<close> is the
  clock reading \<^verbatim>\<open>new Date()\<close> taken inside the function.
\<close>

definition parseTimeElement ::
  "(string \<Rightarrow> int option) \<Rightarrow> int \<Rightarrow> timeElement \<Rightarrow> int \<Rightarrow> timeResult option" where
  "parseTimeElement parseDate now te cutoffTime =
     (case datetime te of
        None \<Rightarrow> parseOtherAttributes te
      | Some d \<Rightarrow>
          (if d = [] then parseOtherAttributes te
           else
             (case parseDate d of
                None \<Rightarrow> parseOtherAttributes te
              | Some postDate \<Rightarrow>
                  (if cutoffTime \<le> postDate \<and> postDate \<le> now
                   then Some \<lparr>isRecent = True, timeStr = d\<rparr>
                   else parseOtherAttributes te))))"

text \<open>
  The recency decision inside \<^verbatim>\<open>extractPostFromElement\<close>: the pair
  (\<^verbatim>\<open>isRecent\<close>, \<^verbatim>\<open>timeStr\<close>) after the time-element step and the text fallback.
\<close>

definition detectRecency ::
  "(string \<Rightarrow> int option) \<Rightarrow> int \<Rightarrow> element \<Rightarrow> int \<Rightarrow> bool \<times> string" where
  "detectRecency parseDate now el cutoffTime =
     (let content = trim (textContent el);
          fromElement =
            (case findTimeElement el of
               None \<Rightarrow> (False, [])
             | Some te \<Rightarrow>
                 (case parseTimeElement parseDate now te cutoffTime of
                    None \<Rightarrow> (False, [])
                  | Some r \<Rightarrow> (isRecent r, timeStr r)))
      in if \<not> fst fromElement
         then (case parseTimeFromText content of
                 None \<Rightarrow> fromElement
               | Some r \<Rightarrow> (isRecent r, timeStr r))
         else fromElement)"

datatype postType =
  TextPost | ImagePost | VideoPost | ArticlePost | PollPost | FallbackDetection | EmergencyDetection

definition detectPostType :: "element \<Rightarrow> postType" where
  "detectPostType el =
     (if hasImage el then ImagePost
      else if hasVideo el then VideoPost
      else if hasArticle el then ArticlePost
      else if hasPoll el then PollPost
      else TextPost)"

section \<open>Errors, the host and the document\<close>

text \<open>
  An exception is a value carrying its message. The page is read through the queries
  the script makes: \<^verbatim>\<open>window.location.href\<close>, the document properties read when the
  debug record is built (\<open>pageInfo\<close>; \<open>Inl\<close> when reading them throws),
  \<^verbatim>\<open>document.body\<close> (\<open>None\<close> for \<^verbatim>\<open>null\<close>), \<^verbatim>\<open>querySelectorAll\<close> (\<open>Inl\<close> when
  the query throws) and the outcomes of the five name strategies of
  \<^verbatim>\<open>extractProfileNameEnhanced\<close>, each a thrown error, \<^verbatim>\<open>null\<close> or a string.
  The host supplies the date parser and the clock readings.
\<close>

datatype error = Error (message: string)

record docInfo =
  docTitle :: string
  readyState :: string

record body =
  bodyText :: string
  innerHTML :: string

record document =
  href :: string
  pageInfo :: "error + docInfo"
  body :: "body option"
  querySelectorAll :: "string \<Rightarrow> error + element list"
  nameStrategies :: "(error + string option) list"

record host =
  dateParser :: "string \<Rightarrow> int option"
  startTime :: int
  scanTime :: int
  errorTime :: int

section \<open>Score arithmetic\<close>

text \<open>
  The scores of the fallback estimator are JavaScript numbers. They are modelled as
  reals with the rounding of the arithmetic as a parameter \<open>rnd\<close>, applied to the result
  of every addition, multiplication and division of scores and to the literal weights
  and constants (0.8, 0.3, 2.5); the identity gives exact arithmetic. Values read by
  \<^verbatim>\<open>parseInt\<close> and the bounds they are compared with are kept as they are.
\<close>

type_synonym rounding = "real \<Rightarrow> real"

definition fadd :: "rounding \<Rightarrow> real \<Rightarrow> real \<Rightarrow> real" where
  "fadd rnd a b = rnd (a + b)"

definition fmul :: "rounding \<Rightarrow> real \<Rightarrow> real \<Rightarrow> real" where
  "fmul rnd a b = rnd (a * b)"

definition fdiv :: "rounding \<Rightarrow> real \<Rightarrow> real \<Rightarrow> real" where
  "fdiv rnd a b = rnd (a / b)"

section \<open>Content Scanner\<close>

record fallbackDetails =
  timePatternScore :: real
  contextualActivity :: real
  structuralActivity :: real
  totalScore :: real
  foundMatches :: "string list"
  uniqueMatches :: nat

record post =
  postText :: string
  postTime :: string
  postKind :: postType
  postDetails :: "fallbackDetails option"

text \<open>
  \<^verbatim>\<open>extractPostFromElement\<close>: the record, if any, and the de-duplication set after the
  call (the set is mutated in place in the script).
\<close>

definition extractPostFromElement ::
  "(string \<Rightarrow> int option) \<Rightarrow> int \<Rightarrow> element \<Rightarrow> int \<Rightarrow> string set \<Rightarrow> post option \<times> string set" where
  "extractPostFromElement parseDate now el cutoffTime processedContent =
     (let content = trim (textContent el);
          contentKey = take 100 content
      in if contentKey \<in> processedContent \<or> length content < 15
         then (None, processedContent)
         else
           (let recency = detectRecency parseDate now el cutoffTime
            in if \<not> fst recency then (None, processedContent)
               else (Some \<lparr>postText = content, postTime = snd recency,
                            postKind = detectPostType el, postDetails = None\<rparr>,
                     insert contentKey processedContent)))"

definition activitySelectors :: "string list" where
  \<open>activitySelectors =
   [''.pv-recent-activity-detail-v2'',
    ''.pvs-list__item--with-top-padding'',
    ''[data-view-name="profile-component-entity"]'',
    ''.pv-entity__summary-info'',
    ''.feed-shared-update-v2'',
    ''.update-components-text'',
    ''.feed-shared-text'',
    ''.scaffold-finite-scroll__content .feed-shared-update-v2'',
    ''[data-view-name="profile-recent-activity"] .pvs-list__item'',
    ''.pv-profile-section .pvs-list__item'',
    ''.artdeco-card .update-components-text'',
    ''.pvs-entity'',
    ''.pvs-list__item'',
    ''[data-view-name*="activity"] [class*="entity"]'',
    ''[data-view-name*="activity"] .pvs-list__item'',
    ''.pv-recent-activity-section-v2 [class*="entity"]'',
    ''.artdeco-card [class*="update"]'',
    ''.scaffold-layout [class*="activity"]'',
    ''[class*="recent-activity"] [class*="item"]'',
    ''[class*="feed"] [class*="update"]'',
    ''[class*="post"] [class*="content"]'',
    ''[class*="activity"] [class*="summary"]'',
    ''.pv-profile-section__card-item'',
    ''.pv-entity-lockup'',
    ''.artdeco-entity-lockup'',
    ''[data-control-name*="activity"]'',
    ''[data-control-name*="post"]'',
    ''.feed-shared-update-v2__description-wrapper'',
    ''.update-components-text__text-view'',
    ''.pv-shared-text-with-see-more'',
    ''.artdeco-card .pv-shared-text-with-see-more'',
    ''[data-view-name*="recent-activity"] .artdeco-card'']\<close>

definition feedSelectors :: "string list" where
  \<open>feedSelectors =
   [''.scaffold-finite-scroll__content > div'',
    ''.feed-shared-update-v2'',
    ''.update-components-text'',
    ''.pv-recent-activity-detail-v2'',
    ''.artdeco-card'',
    ''[data-view-name*="feed"] [class*="item"]'',
    ''.feed-container .feed-shared-update-v2'']\<close>

record scanState =
  foundPosts :: "post list"
  processedContent :: "string set"
  totalElementsScanned :: nat
  scanErrors :: "string list"

text \<open>The inner \<^verbatim>\<open>elements.forEach\<close>: each record found is pushed onto the list.\<close>

fun scanElements ::
  "(string \<Rightarrow> int option) \<Rightarrow> int \<Rightarrow> int \<Rightarrow> element list \<Rightarrow> scanState \<Rightarrow> scanState" where
  "scanElements parseDate now cutoffTime [] st = st"
| "scanElements parseDate now cutoffTime (el # els) st =
     (case extractPostFromElement parseDate now el cutoffTime (processedContent st) of
        (None, seen) \<Rightarrow>
          scanElements parseDate now cutoffTime els (st\<lparr>processedContent := seen\<rparr>)
      | (Some p, seen) \<Rightarrow>
          scanElements parseDate now cutoffTime els
            (st\<lparr>foundPosts := foundPosts st @ [p], processedContent := seen\<rparr>))"

text \<open>
  The outer \<^verbatim>\<open>activitySelectors.forEach\<close>: a selector whose query throws is recorded
  in the errors and skipped.
\<close>

fun scanSelectors ::
  "(string \<Rightarrow> int option) \<Rightarrow> int \<Rightarrow> int \<Rightarrow> document \<Rightarrow> string list \<Rightarrow> scanState \<Rightarrow> scanState" where
  "scanSelectors parseDate now cutoffTime doc [] st = st"
| \<open>scanSelectors parseDate now cutoffTime doc (selector # rest) st =
     (case querySelectorAll doc selector of
        Inl e \<Rightarrow>
          scanSelectors parseDate now cutoffTime doc rest
            (st\<lparr>scanErrors := scanErrors st @ [''Selector "'' @ selector @ ''": '' @ message e]\<rparr>)
      | Inr elements \<Rightarrow>
          scanSelectors parseDate now cutoffTime doc rest
            (scanElements parseDate now cutoffTime elements
               (st\<lparr>totalElementsScanned := totalElementsScanned st + length elements\<rparr>)))\<close>

text \<open>\<^verbatim>\<open>findActivityFeedPosts\<close>: the same scan, sharing the list and the set; a failing
  selector is only logged.\<close>

fun findActivityFeedPosts ::
  "(string \<Rightarrow> int option) \<Rightarrow> int \<Rightarrow> int \<Rightarrow> document \<Rightarrow> string list \<Rightarrow> scanState \<Rightarrow> scanState" where
  "findActivityFeedPosts parseDate now cutoffTime doc [] st = st"
| "findActivityFeedPosts parseDate now cutoffTime doc (selector # rest) st =
     (case querySelectorAll doc selector of
        Inl e \<Rightarrow> findActivityFeedPosts parseDate now cutoffTime doc rest st
      | Inr elements \<Rightarrow>
          findActivityFeedPosts parseDate now cutoffTime doc rest
            (scanElements parseDate now cutoffTime elements st))"

definition findRecentPostsEnhanced ::
  "(string \<Rightarrow> int option) \<Rightarrow> int \<Rightarrow> document \<Rightarrow> int \<Rightarrow> scanState" where
  "findRecentPostsEnhanced parseDate now doc cutoffTime =
     (let st = scanSelectors parseDate now cutoffTime doc activitySelectors
                 \<lparr>foundPosts = [], processedContent = {}, totalElementsScanned = 0,
                  scanErrors = []\<rparr>
      in if includesStr (href doc) ''/recent-activity/'' \<or>
            includesStr (href doc) ''/detail/recent-activity/''
         then findActivityFeedPosts parseDate now cutoffTime doc feedSelectors st
         else st)"

text \<open>
  The selectors one scan goes through: the activity selectors, and the feed selectors
  as well on a recent-activity page.
\<close>

definition scannedSelectors :: "document \<Rightarrow> string list" where
  "scannedSelectors doc =
     (if includesStr (href doc) ''/recent-activity/'' \<or>
         includesStr (href doc) ''/detail/recent-activity/''
      then activitySelectors @ feedSelectors
      else activitySelectors)"

text \<open>The de-duplication key of a record: the first 100 characters of its text.\<close>

definition postKey :: "post \<Rightarrow> string" where
  "postKey p = take 100 (postText p)"

definition contentKey :: "element \<Rightarrow> string" where
  "contentKey el = take 100 (trim (textContent el))"

section \<open>Fallback Estimator\<close>

record activityPattern =
  apPattern :: rx
  apSource :: string
  weight :: real
  maxHours :: real

text \<open>The list \<^verbatim>\<open>activityPatterns\<close> of \<^verbatim>\<open>performAdvancedFallbackDetection\<close>.\<close>

definition activityPatterns :: "activityPattern list" where
  "activityPatterns =
   [\<lparr>apPattern = cat [digits, ws, Lit ''hou'', Opt (Lit ''r''), Opt (Lit ''s''), ws, Lit ''ago''],
     apSource = ''('' @ bs @ ''d+)'' @ bs @ ''s*hour?s?'' @ bs @ ''s*ago'',
     weight = 2, maxHours = 24\<rparr>,
    \<lparr>apPattern = cat [digits, ws, Lit ''minut'', Opt (Lit ''e''), Opt (Lit ''s''), ws, Lit ''ago''],
     apSource = ''('' @ bs @ ''d+)'' @ bs @ ''s*minute?s?'' @ bs @ ''s*ago'',
     weight = 1, maxHours = 24\<rparr>,
    \<lparr>apPattern = cat [Lit ''1'', ws, Lit ''da'', Opt (Lit ''y''), ws, Lit ''ago''],
     apSource = ''1'' @ bs @ ''s*day?'' @ bs @ ''s*ago'',
     weight = 2, maxHours = 24\<rparr>,
    \<lparr>apPattern = Lit ''yesterday'',
     apSource = ''yesterday'',
     weight = 2, maxHours = 24\<rparr>,
    \<lparr>apPattern = cat [digits, Lit ''h'', ws, Opt (Lit ''ago'')],
     apSource = ''('' @ bs @ ''d+)h'' @ bs @ ''s*(?:ago)?'',
     weight = 1.5, maxHours = 24\<rparr>,
    \<lparr>apPattern = cat [digits, Lit ''m'', ws, Opt (Lit ''ago'')],
     apSource = ''('' @ bs @ ''d+)m'' @ bs @ ''s*(?:ago)?'',
     weight = 1, maxHours = 24\<rparr>,
    \<lparr>apPattern = cat [digits, ws, Lit ''hr'', Opt (Lit ''s''), ws, Lit ''ago''],
     apSource = ''('' @ bs @ ''d+)'' @ bs @ ''s*hrs?'' @ bs @ ''s*ago'',
     weight = 1.5, maxHours = 24\<rparr>,
    \<lparr>apPattern = cat [digits, ws, Lit ''min'', Opt (Lit ''s''), ws, Lit ''ago''],
     apSource = ''('' @ bs @ ''d+)'' @ bs @ ''s*mins?'' @ bs @ ''s*ago'',
     weight = 1, maxHours = 24\<rparr>,
    \<lparr>apPattern = cat [Lit ''about'', ws, digits, ws, Lit ''hour'', Opt (Lit ''s''), ws, Lit ''ago''],
     apSource = ''about'' @ bs @ ''s*('' @ bs @ ''d+)'' @ bs @ ''s*hours?'' @ bs @ ''s*ago'',
     weight = 1.5, maxHours = 24\<rparr>,
    \<lparr>apPattern = cat [Lit ''about'', ws, digits, ws, Lit ''minute'', Opt (Lit ''s''), ws, Lit ''ago''],
     apSource = ''about'' @ bs @ ''s*('' @ bs @ ''d+)'' @ bs @ ''s*minutes?'' @ bs @ ''s*ago'',
     weight = 1, maxHours = 24\<rparr>]"

text \<open>The hours a match stands for, decided by words in the pattern's source text.\<close>

definition timeInHours :: "rounding \<Rightarrow> activityPattern \<Rightarrow> nat \<Rightarrow> real" where
  "timeInHours rnd p v =
     (if includesStr (apSource p) ''hour'' \<or> includesStr (apSource p) ''hr'' then real v
      else if includesStr (apSource p) ''minute'' \<or> includesStr (apSource p) ''min''
      then fdiv rnd (real v) 60
      else if includesStr (apSource p) ''day'' \<or> includesStr (apSource p) ''yesterday'' then 24
      else 0)"

text \<open>A match counts when its time is within \<^verbatim>\<open>maxHours\<close>.\<close>

definition qualifies :: "rounding \<Rightarrow> activityPattern \<Rightarrow> rmatchResult \<Rightarrow> bool" where
  "qualifies rnd p m = (timeInHours rnd p (matchValue m) \<le> maxHours p)"

text \<open>
  The two nested \<^verbatim>\<open>forEach\<close> loops over patterns and matches; the state is
  (\<^verbatim>\<open>timePatternScore\<close>, \<^verbatim>\<open>foundMatches\<close>).
\<close>

fun scoreMatches ::
  "rounding \<Rightarrow> activityPattern \<Rightarrow> rmatchResult list \<Rightarrow> real \<times> string list \<Rightarrow> real \<times> string list" where
  "scoreMatches rnd p [] st = st"
| "scoreMatches rnd p (m # ms) (score, found) =
     (if qualifies rnd p m
      then scoreMatches rnd p ms (fadd rnd score (rnd (weight p)), found @ [matched m])
      else scoreMatches rnd p ms (score, found))"

fun scorePatterns ::
  "rounding \<Rightarrow> string \<Rightarrow> activityPattern list \<Rightarrow> real \<times> string list \<Rightarrow> real \<times> string list" where
  "scorePatterns rnd pageText [] st = st"
| "scorePatterns rnd pageText (p # ps) st =
     scorePatterns rnd pageText ps (scoreMatches rnd p (matchAll False (apPattern p) pageText) st)"

definition activityKeywords :: "string list" where
  "activityKeywords =
   [''posted'', ''shared'', ''commented'', ''liked'', ''reacted'', ''updated'',
    ''published'', ''wrote'', ''added'', ''created'', ''uploaded'', ''celebrated'',
    ''congratulated'', ''started'', ''joined'', ''connected'', ''recommended'']"

text \<open>
  The two patterns built for each keyword, with flags \<^verbatim>\<open>gi\<close>:
  keyword, up to 150 characters, a time word, up to 50 characters, \<^verbatim>\<open>ago\<close>;
  and the reverse order.
\<close>

definition timeWord :: rx where
  "timeWord = Alt (Lit ''hour'') (Alt (Lit ''minute'') (Alt (Lit ''day'') (Lit ''yesterday'')))"

definition contextPattern :: "string \<Rightarrow> rx" where
  "contextPattern keyword =
     cat [Lit keyword, Rep Dot 0 (Some 150), timeWord, Rep Dot 0 (Some 50), Lit ''ago'']"

definition reversePattern :: "string \<Rightarrow> rx" where
  "reversePattern keyword =
     cat [timeWord, Rep Dot 0 (Some 50), Lit ''ago'', Rep Dot 0 (Some 150), Lit keyword]"

text \<open>\<^verbatim>\<open>if (matches) acc += matches.length * c\<close>.\<close>

definition addMatches :: "rounding \<Rightarrow> real \<Rightarrow> real \<Rightarrow> nat \<Rightarrow> real" where
  "addMatches rnd c acc n = (if n = 0 then acc else fadd rnd acc (fmul rnd (real n) (rnd c)))"

fun scoreKeywords :: "rounding \<Rightarrow> string \<Rightarrow> string list \<Rightarrow> real \<Rightarrow> real" where
  "scoreKeywords rnd pageText [] acc = acc"
| "scoreKeywords rnd pageText (keyword # rest) acc =
     scoreKeywords rnd pageText rest
       (addMatches rnd (8 / 10)
          (addMatches rnd (8 / 10) acc (length (matchAll True (contextPattern keyword) pageText)))
          (length (matchAll True (reversePattern keyword) pageText)))"

text \<open>The list \<^verbatim>\<open>linkedinPatterns\<close>: an attribute whose quoted value contains a word.\<close>

definition attributePattern :: "string \<Rightarrow> string \<Rightarrow> rx" where
  \<open>attributePattern attr word =
     cat [Lit (attr @ ''="''), Rep NotQuote 0 None, Lit word, Rep NotQuote 0 None, Lit ''"'']\<close>

definition linkedinPatterns :: "rx list" where
  "linkedinPatterns =
   [attributePattern ''data-view-name'' ''activity'',
    attributePattern ''data-view-name'' ''feed'',
    attributePattern ''data-control-name'' ''activity'',
    attributePattern ''data-control-name'' ''feed'',
    attributePattern ''class'' ''activity'',
    attributePattern ''class'' ''recent'',
    attributePattern ''class'' ''update'']"

fun scoreStructure :: "rounding \<Rightarrow> string \<Rightarrow> rx list \<Rightarrow> real \<Rightarrow> real" where
  "scoreStructure rnd pageHTML [] acc = acc"
| "scoreStructure rnd pageHTML (r # rest) acc =
     scoreStructure rnd pageHTML rest
       (addMatches rnd (3 / 10) acc (length (matchAll False r pageHTML)))"

record fallbackResult =
  count :: int
  details :: "error + fallbackDetails"

text \<open>\<^verbatim>\<open>Math.max(0, Math.min(Math.floor(totalScore / 2.5), 12))\<close>.\<close>

definition estimatePosts :: "rounding \<Rightarrow> real \<Rightarrow> int" where
  "estimatePosts rnd score = max 0 (min \<lfloor>fdiv rnd score (rnd 2.5)\<rfloor> 12)"

text \<open>
  \<^verbatim>\<open>performAdvancedFallbackDetection\<close>. Reading the text of a missing body throws
  inside the function's \<^verbatim>\<open>try\<close>; its \<^verbatim>\<open>catch\<close> returns count 0.
\<close>

definition performAdvancedFallbackDetection :: "rounding \<Rightarrow> document \<Rightarrow> fallbackResult" where
  "performAdvancedFallbackDetection rnd doc =
     (case body doc of
        None \<Rightarrow>
          \<lparr>count = 0, details = Inl (Error ''Cannot read properties of null (reading 'textContent')'')\<rparr>
      | Some b \<Rightarrow>
          (let pageText = toLowerCase (bodyText b);
               pageHTML = toLowerCase (innerHTML b);
               timeScan = scorePatterns rnd pageText activityPatterns (0, []);
               contextual = scoreKeywords rnd pageText activityKeywords 0;
               structural = scoreStructure rnd pageHTML linkedinPatterns 0;
               summed = fadd rnd (fadd rnd (fst timeScan) contextual) structural
           in \<lparr>count = estimatePosts rnd summed,
               details = Inr \<lparr>timePatternScore = fst timeScan,
                               contextualActivity = contextual,
                               structuralActivity = structural,
                               totalScore = summed,
                               foundMatches = take 10 (snd timeScan),
                               uniqueMatches = length (remdups (snd timeScan))\<rparr>\<rparr>))"

section \<open>Emergency pass\<close>

record emergencyResult =
  emProfileName :: string
  activityScore :: int
  rawActivityScore :: "nat option"
  emError :: "string option"

definition activityWords :: "string list" where
  "activityWords = [''ago'', ''hour'', ''minute'', ''yesterday'', ''posted'', ''shared'',
                    ''activity'', ''recent'']"

fun emergencyName :: "element list \<Rightarrow> string" where
  "emergencyName [] = ''Unknown''"
| "emergencyName (el # els) =
     (if textContent el \<noteq> [] \<and> emergencyNameCheck (trim (textContent el))
      then trim (textContent el)
      else emergencyName els)"

fun countWords :: "string \<Rightarrow> string list \<Rightarrow> nat \<Rightarrow> nat" where
  "countWords bodyLower [] acc = acc"
| "countWords bodyLower (word # rest) acc =
     countWords bodyLower rest (acc + length (matchAll True (Lit word) bodyLower))"

text \<open>
  \<^verbatim>\<open>performEmergencyAnalysis\<close>. A throwing query or a missing body ends in the
  function's \<^verbatim>\<open>catch\<close>, which returns the name \<^verbatim>\<open>Unknown\<close> and score 0.
\<close>

definition performEmergencyAnalysis :: "document \<Rightarrow> emergencyResult" where
  "performEmergencyAnalysis doc =
     (case querySelectorAll doc ''h1, h2, h3, span, div'' of
        Inl e \<Rightarrow>
          \<lparr>emProfileName = ''Unknown'', activityScore = 0, rawActivityScore = None,
           emError = Some (message e)\<rparr>
      | Inr elements \<Rightarrow>
          (case body doc of
             None \<Rightarrow>
               \<lparr>emProfileName = ''Unknown'', activityScore = 0, rawActivityScore = None,
                emError = Some ''Cannot read properties of null (reading 'textContent')''\<rparr>
           | Some b \<Rightarrow>
               (let raw = countWords (toLowerCase (bodyText b)) activityWords 0
                in \<lparr>emProfileName = emergencyName elements,
                    activityScore = min (int (raw div 20)) 3,
                    rawActivityScore = Some raw,
                    emError = None\<rparr>)))"

section \<open>Name Extractor\<close>

text \<open>
  The loop of \<^verbatim>\<open>extractProfileNameEnhanced\<close> over the strategies: a strategy that
  throws, returns nothing or returns an invalid name is passed over.
\<close>

fun firstValidName :: "(error + string option) list \<Rightarrow> string" where
  "firstValidName [] = ''Unknown''"
| "firstValidName (Inl e # rest) = firstValidName rest"
| "firstValidName (Inr None # rest) = firstValidName rest"
| "firstValidName (Inr (Some name) # rest) =
     (if name \<noteq> [] \<and> isValidProfileName name then name else firstValidName rest)"

definition extractProfileNameEnhanced :: "document \<Rightarrow> string" where
  "extractProfileNameEnhanced doc = firstValidName (nameStrategies doc)"

section \<open>Analysis Orchestrator\<close>

record debugInfo =
  debugUrl :: string
  debugTitle :: string
  pageReadyState :: string
  bodyLength :: nat
  errors :: "string list"
  profileNameFound :: bool
  selectorsAttempted :: nat
  elementsScanned :: nat
  usedFallback :: bool
  usedEmergencyAnalysis :: bool

datatype debugRecord = Debug debugInfo | DebugError string

text \<open>The result object; \<open>None\<close> for a property the object does not have.\<close>

record analysisResult =
  postCount :: int
  profileName :: string
  analyzedAt :: int
  url :: string
  posts :: "post list option"
  error :: "string option"
  debug :: debugRecord

text \<open>The local variables of \<^verbatim>\<open>extractProfileData\<close>.\<close>

record pipelineState =
  stCount :: int
  stName :: string
  stPosts :: "post list"
  stDebug :: debugInfo

text \<open>Name extraction and the scan: the first part of the \<^verbatim>\<open>try\<close> block.\<close>

definition scanStage :: "host \<Rightarrow> document \<Rightarrow> docInfo \<Rightarrow> pipelineState" where
  "scanStage h doc info =
     (let twentyFourHoursAgo = startTime h - 24 * 60 * 60 * 1000;
          name = extractProfileNameEnhanced doc;
          scan = findRecentPostsEnhanced (dateParser h) (scanTime h) doc twentyFourHoursAgo
      in \<lparr>stCount = int (length (foundPosts scan)),
          stName = name,
          stPosts = foundPosts scan,
          stDebug = \<lparr>debugUrl = href doc, debugTitle = docTitle info,
                     pageReadyState = readyState info,
                     bodyLength = (case body doc of None \<Rightarrow> 0 | Some b \<Rightarrow> length (bodyText b)),
                     errors = scanErrors scan,
                     profileNameFound = (name \<noteq> ''Unknown''),
                     selectorsAttempted = length activitySelectors,
                     elementsScanned = totalElementsScanned scan,
                     usedFallback = False,
                     usedEmergencyAnalysis = False\<rparr>\<rparr>)"

definition fallbackPost :: "fallbackResult \<Rightarrow> post" where
  "fallbackPost fr =
     \<lparr>postText = ''Recent activity detected via enhanced text analysis'',
      postTime = ''Estimated from page content'',
      postKind = FallbackDetection,
      postDetails = (case details fr of Inl e \<Rightarrow> None | Inr d \<Rightarrow> Some d)\<rparr>"

text \<open>\<^verbatim>\<open>if (postCount === 0)\<close>: the fallback estimator.\<close>

definition fallbackStage :: "rounding \<Rightarrow> document \<Rightarrow> pipelineState \<Rightarrow> pipelineState" where
  "fallbackStage rnd doc st =
     (if stCount st = 0
      then
        (let fallbackResult = performAdvancedFallbackDetection rnd doc
         in if 0 < count fallbackResult
            then st\<lparr>stCount := count fallbackResult,
                    stPosts := stPosts st @ [fallbackPost fallbackResult],
                    stDebug := (stDebug st)\<lparr>usedFallback := True\<rparr>\<rparr>
            else st)
      else st)"

definition emergencyPost :: post where
  "emergencyPost =
     \<lparr>postText = ''Activity detected through emergency analysis'',
      postTime = ''Estimated'',
      postKind = EmergencyDetection,
      postDetails = None\<rparr>"

text \<open>\<^verbatim>\<open>if (profileName === 'Unknown' && postCount === 0)\<close>: the emergency pass.\<close>

definition emergencyStage :: "document \<Rightarrow> pipelineState \<Rightarrow> pipelineState" where
  "emergencyStage doc st =
     (if stName st = ''Unknown'' \<and> stCount st = 0
      then
        (let emergencyResult = performEmergencyAnalysis doc;
             st1 = (if emProfileName emergencyResult \<noteq> ''Unknown''
                    then st\<lparr>stName := emProfileName emergencyResult\<rparr> else st);
             st2 = (if 0 < activityScore emergencyResult
                    then st1\<lparr>stCount := min (activityScore emergencyResult) 5,
                             stPosts := stPosts st1 @ [emergencyPost]\<rparr>
                    else st1)
         in st2\<lparr>stDebug := (stDebug st2)\<lparr>usedEmergencyAnalysis := True\<rparr>\<rparr>)
      else st)"

text \<open>The \<^verbatim>\<open>posts.map\<close> of the result: the text cut to 150 characters.\<close>

definition displayPost :: "post \<Rightarrow> post" where
  "displayPost p =
     p\<lparr>postText := take 150 (postText p) @ (if 150 < length (postText p) then ''...'' else [])\<rparr>"

text \<open>
  \<^verbatim>\<open>extractProfileData\<close>. The document properties are read before the \<^verbatim>\<open>try\<close>
  block, so a failure there leaves the function as an exception (\<open>Inl\<close>). Every step
  inside the \<^verbatim>\<open>try\<close> block recovers from its own failures.
\<close>

definition extractProfileData :: "rounding \<Rightarrow> host \<Rightarrow> document \<Rightarrow> error + analysisResult" where
  "extractProfileData rnd h doc =
     (case pageInfo doc of
        Inl e \<Rightarrow> Inl e
      | Inr info \<Rightarrow>
          (let st = emergencyStage doc (fallbackStage rnd doc (scanStage h doc info))
           in Inr \<lparr>postCount = stCount st,
                   profileName = stName st,
                   analyzedAt = startTime h,
                   url = href doc,
                   posts = Some (map displayPost (stPosts st)),
                   error = None,
                   debug = Debug (stDebug st)\<rparr>))"

text \<open>
  \<^verbatim>\<open>analyzeCurrentProfile\<close>: the value the promise resolves with. An exception of
  \<^verbatim>\<open>extractProfileData\<close> is caught and turned into the error record.
\<close>

definition analyzeCurrentProfile :: "rounding \<Rightarrow> host \<Rightarrow> document \<Rightarrow> analysisResult" where
  "analyzeCurrentProfile rnd h doc =
     (case extractProfileData rnd h doc of
        Inr result \<Rightarrow> result
      | Inl e \<Rightarrow>
          \<lparr>postCount = 0,
           profileName = ''Error'',
           analyzedAt = errorTime h,
           url = href doc,
           posts = None,
           error = Some (message e),
           debug = DebugError (message e)\<rparr>)"

section \<open>The scan invariant and the match count\<close>

text \<open>
  What the scan maintains: the records found so far have pairwise different keys, and
  the de-duplication set holds exactly their keys.
\<close>

definition scanInvariant :: "scanState \<Rightarrow> bool" where
  "scanInvariant st =
     (distinct (map postKey (foundPosts st)) \<and>
      set (map postKey (foundPosts st)) = processedContent st)"

text \<open>The number of matches of a pattern in a text that count towards the time score.\<close>

definition qualifyingCount :: "rounding \<Rightarrow> activityPattern \<Rightarrow> string \<Rightarrow> nat" where
  "qualifyingCount rnd p pageText =
     length (filter (qualifies rnd p) (matchAll False (apPattern p) pageText))"

section \<open>Example pages\<close>

text \<open>
  A host whose clock reads 2023-11-14T22:13:20Z at the start of the analysis, and
  whose date parser knows two instants: one years before the cutoff, one two hours
  before the start.
\<close>

definition fixedHost :: host where
  "fixedHost =
     \<lparr>dateParser = (\<lambda>s. if s = ''2020-01-01T00:00:00.000Z'' then Some 1577836800000
                         else if s = ''2023-11-14T20:00:00.000Z'' then Some 1699992000000
                         else None),
      startTime = 1700000000000,
      scanTime = 1700000005000,
      errorTime = 1700000006000\<rparr>"

definition fixedCutoff :: int where
  "fixedCutoff = 1699913600000"

definition staleMarker :: timeElement where
  "staleMarker = \<lparr>datetime = Some ''2020-01-01T00:00:00.000Z'', ariaLabel = None, titleAttr = None\<rparr>"

definition freshMarker :: timeElement where
  "freshMarker = \<lparr>datetime = Some ''2023-11-14T20:00:00.000Z'', ariaLabel = None, titleAttr = None\<rparr>"

definition staleFragment :: element where
  "staleFragment =
     \<lparr>textContent = ''  Posted an update 2 hours ago '', timeMarker = Some staleMarker,
      hasImage = True, hasVideo = False, hasArticle = False, hasPoll = False\<rparr>"

text \<open>A fragment with the same stale marker whose whole text is a short time phrase.\<close>

definition shortStaleFragment :: element where
  "shortStaleFragment =
     \<lparr>textContent = ''2 hours ago'', timeMarker = Some staleMarker,
      hasImage = False, hasVideo = False, hasArticle = False, hasPoll = False\<rparr>"

definition freshFragment :: element where
  "freshFragment =
     \<lparr>textContent = ''Shared a link with colleagues'', timeMarker = Some freshMarker,
      hasImage = False, hasVideo = False, hasArticle = False, hasPoll = False\<rparr>"

definition noElements :: "string \<Rightarrow> error + element list" where
  "noElements selector = Inr []"

text \<open>A page on which two selectors of the scan match the same fragment.\<close>

definition overlapQuery :: "string \<Rightarrow> error + element list" where
  "overlapQuery selector =
     (if selector = ''.feed-shared-update-v2'' \<or> selector = ''.update-components-text''
      then Inr [staleFragment] else Inr [])"

definition overlapDoc :: document where
  \<open>overlapDoc =
     \<lparr>href = ''https://www.linkedin.com/in/jane-doe/'',
      pageInfo = Inr \<lparr>docTitle = ''Jane Doe | LinkedIn'', readyState = ''complete''\<rparr>,
      body = Some
        \<lparr>bodyText = ''  Posted an update 2 hours ago '',
         innerHTML =
           ''<div class="feed-shared-update-v2 update-components-text">'' @
           ''<time datetime="2020-01-01T00:00:00.000Z"></time><img>'' @
           ''  Posted an update 2 hours ago </div>''\<rparr>,
      querySelectorAll = overlapQuery,
      nameStrategies = [Inr None, Inr (Some ''Jane Doe'')]\<rparr>\<close>

text \<open>
  Pages whose body is a single text node of abbreviated time phrases, so that no
  selector matches anything.
\<close>

definition estimateDoc :: document where
  "estimateDoc =
     \<lparr>href = ''https://www.linkedin.com/in/jane-doe/'',
      pageInfo = Inr \<lparr>docTitle = ''Jane Doe | LinkedIn'', readyState = ''complete''\<rparr>,
      body = Some \<lparr>bodyText = ''1h 2h 3h 4h'', innerHTML = ''1h 2h 3h 4h''\<rparr>,
      querySelectorAll = noElements,
      nameStrategies = [Inr None, Inr (Some ''Jane Doe'')]\<rparr>"

definition smallEstimateDoc :: document where
  "smallEstimateDoc =
     \<lparr>href = ''https://www.linkedin.com/in/jane-doe/'',
      pageInfo = Inr \<lparr>docTitle = ''Jane Doe | LinkedIn'', readyState = ''complete''\<rparr>,
      body = Some \<lparr>bodyText = ''1h 2h'', innerHTML = ''1h 2h''\<rparr>,
      querySelectorAll = noElements,
      nameStrategies = [Inr None, Inr (Some ''Jane Doe'')]\<rparr>"

text \<open>A page with nothing on it, and a page whose properties cannot be read.\<close>

definition emptyDoc :: document where
  "emptyDoc =
     \<lparr>href = ''https://www.linkedin.com/in/nobody/'',
      pageInfo = Inr \<lparr>docTitle = ''LinkedIn'', readyState = ''complete''\<rparr>,
      body = Some \<lparr>bodyText = [], innerHTML = []\<rparr>,
      querySelectorAll = noElements,
      nameStrategies = [Inl (Error ''strategy failed''), Inr None, Inr (Some ''LinkedIn'')]\<rparr>"

definition brokenDoc :: document where
  "brokenDoc =
     \<lparr>href = ''https://www.linkedin.com/in/jane-doe/'',
      pageInfo = Inl (Error ''document is not available''),
      body = None,
      querySelectorAll = noElements,
      nameStrategies = []\<rparr>"

section \<open>Time phrases with an arbitrary number\<close>


lemma smalls_not_digits:
  "\<forall>l\<in>set (lowerLetters @ latinSmalls). \<not> isDigit l"
  by (simp add: lowerLetters_def latinSmalls_def isDigit_def)

lemma capitals_not_digits:
  "\<forall>u\<in>set (upperLetters @ latinCapitals). \<not> isDigit u"
  by (simp add: upperLetters_def latinCapitals_def isDigit_def)

lemma case_table_lengths:
  "length (upperLetters @ latinCapitals) = length (lowerLetters @ latinSmalls)"
  by (simp add: upperLetters_def lowerLetters_def latinCapitals_def latinSmalls_def)

lemma toLowerChar_digit: "isDigit c \<Longrightarrow> toLowerChar c = c"
proof -
  assume "isDigit c"
  then have "c \<notin> set (upperLetters @ latinCapitals)"
    using capitals_not_digits by blast
  then have "map_of (zip (upperLetters @ latinCapitals) (lowerLetters @ latinSmalls)) c = None"
    using map_of_zip_is_None [OF case_table_lengths, of c] by blast
  then show ?thesis by (simp add: toLowerChar_def)
qed

lemma toLowerChar_nondigit: "\<not> isDigit c \<Longrightarrow> \<not> isDigit (toLowerChar c)"
proof (cases "map_of (zip (upperLetters @ latinCapitals) (lowerLetters @ latinSmalls)) c")
  case None
  assume "\<not> isDigit c"
  then show ?thesis using None by (simp add: toLowerChar_def)
next
  case (Some l)
  then have "(c, l) \<in> set (zip (upperLetters @ latinCapitals) (lowerLetters @ latinSmalls))"
    by (rule map_of_SomeD)
  then have "l \<in> set (lowerLetters @ latinSmalls)"
    by (rule set_zip_rightD)
  then have "\<not> isDigit l" using smalls_not_digits by blast
  then show ?thesis using Some by (simp add: toLowerChar_def)
qed

lemma toLowerCase_digits: "list_all isDigit ds \<Longrightarrow> toLowerCase ds = ds"
  by (induction ds) (simp_all add: toLowerCase_def toLowerChar_digit)

lemma toLowerCase_nondigits:
  "list_all (\<lambda>c. \<not> isDigit c) pre \<Longrightarrow> list_all (\<lambda>c. \<not> isDigit c) (toLowerCase pre)"
  by (induction pre) (simp_all add: toLowerCase_def toLowerChar_nondigit)

lemma toLowerCase_append: "toLowerCase (xs @ ys) = toLowerCase xs @ toLowerCase ys"
  by (simp add: toLowerCase_def)

lemma spanClass_digits:
  "list_all isDigit ds \<Longrightarrow> rest = [] \<or> \<not> isDigit (hd rest) \<Longrightarrow>
   spanClass Digit None (ds @ rest) = length ds"
proof (induction ds)
  case Nil
  then show ?case by (cases rest) simp_all
next
  case (Cons d ds)
  then show ?case by simp
qed

lemma countdown_bounds: "k \<in> set (countdown lo n) \<Longrightarrow> lo \<le> k \<and> k \<le> n"
  by (induction n) (auto split: if_splits)

lemma rmatch_digits:
  assumes "list_all isDigit ds" and "rest = [] \<or> \<not> isDigit (hd rest)"
  shows "rmatch ic digits (cap, ds @ rest) =
           map (\<lambda>k. (Some (take k ds), drop k ds @ rest)) (countdown 1 (length ds))"
proof -
  have "rmatch ic digits (cap, ds @ rest) =
          map (\<lambda>k. (Some (take (length (ds @ rest) - length (drop k (ds @ rest))) (ds @ rest)),
                     drop k (ds @ rest)))
            (countdown 1 (length ds))"
    using spanClass_digits [OF assms] by (simp add: digits_def comp_def)
  also have "\<dots> = map (\<lambda>k. (Some (take k ds), drop k ds @ rest)) (countdown 1 (length ds))"
  proof (rule map_cong [OF refl])
    fix k
    assume "k \<in> set (countdown 1 (length ds))"
    then have "k \<le> length ds" using countdown_bounds by blast
    then show "(Some (take (length (ds @ rest) - length (drop k (ds @ rest))) (ds @ rest)),
                 drop k (ds @ rest)) = (Some (take k ds), drop k ds @ rest)"
      by simp
  qed
  finally show ?thesis .
qed

lemma rmatch_digits_nondigit:
  "s = [] \<or> \<not> isDigit (hd s) \<Longrightarrow> rmatch ic digits (cap, s) = []"
  by (cases s) (simp_all add: digits_def)




lemma digits_pattern_first:
  assumes "ds \<noteq> []" and "list_all isDigit ds" and "rest = [] \<or> \<not> isDigit (hd rest)"
    and "rmatch ic R (Some ds, rest) \<noteq> []"
    and "hd (rmatch ic R (Some ds, rest)) = (cap', s')"
  shows "regexMatch ic (Seq digits R) (ds @ rest) =
           Some \<lparr>matched = take (length ds + length rest - length s') (ds @ rest), group1 = cap'\<rparr>"
proof -
  obtain n where n: "length ds = Suc n" using assms(1) by (cases ds) simp_all
  obtain more where m: "rmatch ic R (Some ds, rest) = (cap', s') # more"
    using assms(4,5) by (cases "rmatch ic R (Some ds, rest)") simp_all
  have "rmatch ic (Seq digits R) (None, ds @ rest) =
          ((cap', s') # more) @
          concat (map (rmatch ic R)
            (map (\<lambda>k. (Some (take k ds), drop k ds @ rest)) (countdown 1 n)))"
    using m by (simp add: rmatch_digits [OF assms(2,3)] n [symmetric]) (simp add: n)
  then have "matchAt ic (Seq digits R) (ds @ rest) =
          Some \<lparr>matched = take (length ds + length rest - length s') (ds @ rest), group1 = cap'\<rparr>"
    by (simp add: matchAt_def)
  then show ?thesis using assms(1) by (cases ds) simp_all
qed

lemma digits_pattern_skip_prefix:
  "list_all (\<lambda>c. \<not> isDigit c) pre \<Longrightarrow>
   regexMatch ic (Seq digits R) (pre @ s) = regexMatch ic (Seq digits R) s"
proof (induction pre)
  case Nil
  then show ?case by simp
next
  case (Cons c pre)
  then have "rmatch ic digits (None, c # pre @ s) = []"
    by (intro rmatch_digits_nondigit) simp
  then show ?case using Cons by (simp add: matchAt_def)
qed

text \<open>A pattern that starts with a literal, at a digit.\<close>

lemma literal_at_digit:
  assumes "isDigit d" and "\<not> isDigit p"
  shows "rmatch False (Lit (p # ps)) (cap, d # s) = []"
  using assms by auto


lemma cat_Cons: "cat (r # q # qs) = Seq r (cat (q # qs))"
  by simp












lemmas eval_rx = ws_def isWhitespace_def isDigit_def matchAt_def






































lemma digits_cat_first:
  assumes "ds \<noteq> []" and "list_all isDigit ds" and "rest = [] \<or> \<not> isDigit (hd rest)"
    and "rmatch ic (cat (q # qs)) (Some ds, rest) \<noteq> []"
    and "hd (rmatch ic (cat (q # qs)) (Some ds, rest)) = (cap', s')"
  shows "regexMatch ic (cat (digits # q # qs)) (ds @ rest) =
           Some \<lparr>matched = take (length ds + length rest - length s') (ds @ rest), group1 = cap'\<rparr>"
  using digits_pattern_first [OF assms] by (simp only: cat_Cons)

lemma digits_cat_skip_prefix:
  "list_all (\<lambda>c. \<not> isDigit c) pre \<Longrightarrow>
   regexMatch ic (cat (digits # q # qs)) (pre @ s) = regexMatch ic (cat (digits # q # qs)) s"
  using digits_pattern_skip_prefix [of pre ic "cat (q # qs)" s] by (simp only: cat_Cons)

lemma hours_match:
  assumes "ds \<noteq> []" and "list_all isDigit ds"
  shows "regexMatch False
           (cat [digits, ws, Lit ''h'', Opt (Alt (Lit ''our'') (Lit ''r'')), Opt (Lit ''s''), ws, Lit ''ago''])
           (ds @ '' hours ago'' @ suf) =
         Some \<lparr>matched = ds @ '' hours ago'', group1 = Some ds\<rparr>"
proof -
  have nd: "'' hours ago'' @ suf = [] \<or> \<not> isDigit (hd ('' hours ago'' @ suf))"
    by (simp add: isDigit_def)
  have e: "rmatch False
             (cat [ws, Lit ''h'', Opt (Alt (Lit ''our'') (Lit ''r'')), Opt (Lit ''s''), ws, Lit ''ago''])
             (Some ds, '' hours ago'' @ suf) \<noteq> [] \<and>
           hd (rmatch False
             (cat [ws, Lit ''h'', Opt (Alt (Lit ''our'') (Lit ''r'')), Opt (Lit ''s''), ws, Lit ''ago''])
             (Some ds, '' hours ago'' @ suf)) = (Some ds, suf)"
    by (simp add: eval_rx)
  show ?thesis
    using digits_cat_first [OF assms nd conjunct1 [OF e] conjunct2 [OF e]] by simp
qed


lemma lower_hours: "toLowerCase '' hours ago'' = '' hours ago''"
  by code_simp



lemma matchValue_digits:
  "matchValue \<lparr>matched = m, group1 = Some ds\<rparr> \<le> b \<longleftrightarrow> parseInt ds \<le> b \<and> 1 \<le> b \<or> parseInt ds = 0 \<and> 1 \<le> b"
  by (auto simp: matchValue_def)





lemma parseTimeLoop_later:
  "parseTimeLoop ps t \<noteq> None \<Longrightarrow> parseTimeLoop (p # ps) t \<noteq> None"
  by (simp split: option.splits)

lemma parseTimeLoop_recent: "parseTimeLoop ps t = Some r \<Longrightarrow> isRecent r"
  by (induction ps) (auto split: option.splits if_splits)


lemma loop_hours_hit:
  assumes "regexMatch False
             (cat [digits, ws, Lit ''h'', Opt (Alt (Lit ''our'') (Lit ''r'')), Opt (Lit ''s''), ws, Lit ''ago''])
             t = Some \<lparr>matched = m, group1 = Some ds\<rparr>"
    and "parseInt ds \<le> 24"
  shows "\<exists>r. parseTimeLoop recentPatterns t = Some r \<and> isRecent r"
proof -
  have "parseTimeLoop (tl recentPatterns) t \<noteq> None"
    using assms by (simp add: recentPatterns_def matchValue_def bs_def del: cat.simps)
  then have "parseTimeLoop (hd recentPatterns # tl recentPatterns) t \<noteq> None"
    by (rule parseTimeLoop_later)
  then have "parseTimeLoop recentPatterns t \<noteq> None"
    by (simp add: recentPatterns_def del: cat.simps)
  then obtain r where "parseTimeLoop recentPatterns t = Some r" by blast
  then show ?thesis using parseTimeLoop_recent by blast
qed


lemma hours_in_context:
  assumes "ds \<noteq> []" and "list_all isDigit ds" and "list_all (\<lambda>c. \<not> isDigit c) pre"
    and "parseInt ds \<le> 24"
  shows "\<exists>r. parseTimeFromText (pre @ ds @ '' hours ago'' @ suf) = Some r \<and> isRecent r"
proof -
  have low: "toLowerCase (pre @ ds @ '' hours ago'' @ suf) =
               toLowerCase pre @ ds @ '' hours ago'' @ toLowerCase suf"
    by (simp only: toLowerCase_append toLowerCase_digits [OF assms(2)] lower_hours)
  have "regexMatch False
          (cat [digits, ws, Lit ''h'', Opt (Alt (Lit ''our'') (Lit ''r'')), Opt (Lit ''s''), ws, Lit ''ago''])
          (toLowerCase pre @ ds @ '' hours ago'' @ toLowerCase suf) =
        Some \<lparr>matched = ds @ '' hours ago'', group1 = Some ds\<rparr>"
    by (simp only: digits_cat_skip_prefix [OF toLowerCase_nondigits [OF assms(3)]]
        hours_match [OF assms(1,2)])
  then show ?thesis
    unfolding parseTimeFromText_def low using assms(4) by (rule loop_hours_hit)
qed

section \<open>The recency classifier\<close>

text \<open>A relative-time phrase, when one is accepted, always means recent.\<close>

lemma parseTimeFromText_recent: "parseTimeFromText s = Some r \<Longrightarrow> isRecent r"
  unfolding parseTimeFromText_def by (rule parseTimeLoop_recent)

lemma parseAttribute_recent: "parseAttribute a = Some r \<Longrightarrow> isRecent r"
  unfolding parseAttribute_def
  by (auto split: option.splits if_splits dest: parseTimeFromText_recent)

lemma parseOtherAttributes_recent: "parseOtherAttributes te = Some r \<Longrightarrow> isRecent r"
  unfolding parseOtherAttributes_def
  by (auto split: option.splits dest: parseAttribute_recent)

lemma parseTimeElement_in_range:
  assumes "datetime te = Some d" "d \<noteq> []" "parseDate d = Some T" "cutoff \<le> T" "T \<le> now"
  shows "parseTimeElement parseDate now te cutoff = Some \<lparr>isRecent = True, timeStr = d\<rparr>"
  using assms by (simp add: parseTimeElement_def)

lemma parseTimeElement_out_of_range:
  assumes "datetime te = Some d" "parseDate d = Some T" "\<not> (cutoff \<le> T \<and> T \<le> now)"
  shows "parseTimeElement parseDate now te cutoff = parseOtherAttributes te"
  using assms by (auto simp: parseTimeElement_def)

lemma detectRecency_fall_through:
  assumes "findTimeElement el = Some te"
    and "parseTimeElement parseDate now te cutoff = parseOtherAttributes te"
  shows "fst (detectRecency parseDate now el cutoff) \<longleftrightarrow>
           parseOtherAttributes te \<noteq> None \<or> parseTimeFromText (trim (textContent el)) \<noteq> None"
  using assms
  by (auto simp: detectRecency_def Let_def split: option.splits
      dest: parseOtherAttributes_recent parseTimeFromText_recent)

text \<open>
  Claim C1, as the script has it. Let a fragment have a located time element whose
  \<^verbatim>\<open>datetime\<close> parses to the instant \<open>T\<close>. If \<open>cutoff \<le> T \<le> now\<close> the fragment is
  marked recent with the timestamp as its label. If \<open>T\<close> lies outside the window the
  decision is left to the relative-time phrases: the fragment is recent exactly when
  a phrase is found in the marker's \<^verbatim>\<open>aria-label\<close> or \<^verbatim>\<open>title\<close> (when they
  contain "ago") or in the fragment's own text.
\<close>

theorem explicit_timestamp_recency:
  assumes "findTimeElement el = Some te" and "datetime te = Some d" and "d \<noteq> []"
    and "parseDate d = Some T"
  shows "(cutoff \<le> T \<and> T \<le> now \<longrightarrow> detectRecency parseDate now el cutoff = (True, d)) \<and>
         (\<not> (cutoff \<le> T \<and> T \<le> now) \<longrightarrow>
            (fst (detectRecency parseDate now el cutoff) \<longleftrightarrow>
               parseOtherAttributes te \<noteq> None \<or>
               parseTimeFromText (trim (textContent el)) \<noteq> None))"
proof (intro conjI impI)
  assume "cutoff \<le> T \<and> T \<le> now"
  then have "parseTimeElement parseDate now te cutoff = Some \<lparr>isRecent = True, timeStr = d\<rparr>"
    using assms by (simp add: parseTimeElement_in_range)
  then show "detectRecency parseDate now el cutoff = (True, d)"
    using assms(1) by (simp add: detectRecency_def Let_def)
next
  assume "\<not> (cutoff \<le> T \<and> T \<le> now)"
  with assms(2,4) have "parseTimeElement parseDate now te cutoff = parseOtherAttributes te"
    by (rule parseTimeElement_out_of_range)
  with assms(1) show "fst (detectRecency parseDate now el cutoff) \<longleftrightarrow>
               parseOtherAttributes te \<noteq> None \<or>
               parseTimeFromText (trim (textContent el)) \<noteq> None"
    by (rule detectRecency_fall_through)
qed

text \<open>
  Claim C10, as the script has it. A fragment whose explicit timestamp parses to an
  instant outside \<open>[cutoff, now]\<close> is not settled by it: \<^verbatim>\<open>parseTimeElement\<close> goes on
  to the marker's other attributes, and the fragment is classified recent whenever
  text-pattern parsing accepts its visible text, in particular when the text holds
  "N hours ago" with N at most 24 and no digit before it; the time label is the matched
  phrase when the other attributes give nothing. A fragment classified recent is emitted
  as a record carrying its text when its trimmed text has at least 15 characters and its
  key has not been seen in the scan; a shorter fragment or a repeated key is skipped.
\<close>

theorem stale_timestamp_falls_through:
  assumes "findTimeElement el = Some te" and "datetime te = Some d"
    and "parseDate d = Some T" and "\<not> (cutoff \<le> T \<and> T \<le> now)"
  shows "parseTimeElement parseDate now te cutoff = parseOtherAttributes te \<and>
         (parseTimeFromText (trim (textContent el)) \<noteq> None \<longrightarrow>
            fst (detectRecency parseDate now el cutoff)) \<and>
         (\<forall>pre ds suf.
            trim (textContent el) = pre @ ds @ '' hours ago'' @ suf \<and> ds \<noteq> [] \<and>
            list_all isDigit ds \<and> list_all (\<lambda>c. \<not> isDigit c) pre \<and> parseInt ds \<le> 24 \<longrightarrow>
            fst (detectRecency parseDate now el cutoff)) \<and>
         (\<forall>r. parseOtherAttributes te = None \<and>
              parseTimeFromText (trim (textContent el)) = Some r \<longrightarrow>
              snd (detectRecency parseDate now el cutoff) = timeStr r) \<and>
         (fst (detectRecency parseDate now el cutoff) \<and>
          15 \<le> length (trim (textContent el)) \<and> contentKey el \<notin> seen \<longrightarrow>
            extractPostFromElement parseDate now el cutoff seen =
              (Some \<lparr>postText = trim (textContent el),
                     postTime = snd (detectRecency parseDate now el cutoff),
                     postKind = detectPostType el, postDetails = None\<rparr>,
               insert (contentKey el) seen)) \<and>
         (length (trim (textContent el)) < 15 \<or> contentKey el \<in> seen \<longrightarrow>
            extractPostFromElement parseDate now el cutoff seen = (None, seen))"
proof -
  have ft: "parseTimeElement parseDate now te cutoff = parseOtherAttributes te"
    using assms(2,3,4) by (rule parseTimeElement_out_of_range)
  have rec: "fst (detectRecency parseDate now el cutoff)"
    if "parseTimeFromText (trim (textContent el)) \<noteq> None"
    using detectRecency_fall_through [OF assms(1) ft] that by simp
  have phrase: "fst (detectRecency parseDate now el cutoff)"
    if "trim (textContent el) = pre @ ds @ '' hours ago'' @ suf \<and> ds \<noteq> [] \<and>
        list_all isDigit ds \<and> list_all (\<lambda>c. \<not> isDigit c) pre \<and> parseInt ds \<le> 24"
    for pre ds suf
  proof -
    have "\<exists>r. parseTimeFromText (pre @ ds @ '' hours ago'' @ suf) = Some r \<and> isRecent r"
      using that by (intro hours_in_context) simp_all
    then show ?thesis using rec that by auto
  qed
  have lab: "snd (detectRecency parseDate now el cutoff) = timeStr r"
    if "parseOtherAttributes te = None \<and> parseTimeFromText (trim (textContent el)) = Some r"
    for r
    using assms(1) ft that by (simp add: detectRecency_def Let_def)
  have out: "extractPostFromElement parseDate now el cutoff seen =
              (Some \<lparr>postText = trim (textContent el),
                     postTime = snd (detectRecency parseDate now el cutoff),
                     postKind = detectPostType el, postDetails = None\<rparr>,
               insert (contentKey el) seen)"
    if "fst (detectRecency parseDate now el cutoff) \<and>
        15 \<le> length (trim (textContent el)) \<and> contentKey el \<notin> seen"
    using that by (simp add: extractPostFromElement_def contentKey_def Let_def)
  have skip: "extractPostFromElement parseDate now el cutoff seen = (None, seen)"
    if "length (trim (textContent el)) < 15 \<or> contentKey el \<in> seen"
    using that by (auto simp: extractPostFromElement_def contentKey_def Let_def)
  show ?thesis
    using ft rec phrase lab out skip by blast
qed

section \<open>De-duplication in the Content Scanner\<close>

lemma extractPost_cases:
  "extractPostFromElement pd now el c seen = (None, seen) \<or>
   (\<exists>p. extractPostFromElement pd now el c seen = (Some p, insert (contentKey el) seen) \<and>
        postKey p = contentKey el \<and> contentKey el \<notin> seen)"
  by (simp add: extractPostFromElement_def Let_def contentKey_def postKey_def)

lemma extractPost_qualifying:
  assumes "15 \<le> length (trim (textContent el))" and "fst (detectRecency pd now el c)"
  shows "contentKey el \<in> snd (extractPostFromElement pd now el c seen)"
  using assms by (simp add: extractPostFromElement_def Let_def contentKey_def)

lemma scanElements_invariant:
  "scanInvariant st \<Longrightarrow> scanInvariant (scanElements pd now c els st)"
proof (induction els arbitrary: st)
  case Nil
  then show ?case by simp
next
  case (Cons el els)
  from extractPost_cases [of pd now el c "processedContent st"]
  show ?case
  proof
    assume "extractPostFromElement pd now el c (processedContent st) = (None, processedContent st)"
    then show ?thesis using Cons by simp
  next
    assume "\<exists>p. extractPostFromElement pd now el c (processedContent st) =
                 (Some p, insert (contentKey el) (processedContent st)) \<and>
               postKey p = contentKey el \<and> contentKey el \<notin> processedContent st"
    then obtain p where p:
      "extractPostFromElement pd now el c (processedContent st) =
         (Some p, insert (contentKey el) (processedContent st))"
      "postKey p = contentKey el" "contentKey el \<notin> processedContent st"
      by blast
    have "scanInvariant (st\<lparr>foundPosts := foundPosts st @ [p],
                            processedContent := insert (contentKey el) (processedContent st)\<rparr>)"
      using Cons.prems p(2,3) by (auto simp: scanInvariant_def)
    then show ?thesis using Cons.IH p(1) by simp
  qed
qed

lemma scanElements_seen_mono:
  "processedContent st \<subseteq> processedContent (scanElements pd now c els st)"
proof (induction els arbitrary: st)
  case Nil
  then show ?case by simp
next
  case (Cons el els)
  from extractPost_cases [of pd now el c "processedContent st"]
  show ?case
  proof
    assume "extractPostFromElement pd now el c (processedContent st) = (None, processedContent st)"
    then show ?thesis using Cons [of "st\<lparr>processedContent := processedContent st\<rparr>"] by simp
  next
    assume "\<exists>p. extractPostFromElement pd now el c (processedContent st) =
                 (Some p, insert (contentKey el) (processedContent st)) \<and>
               postKey p = contentKey el \<and> contentKey el \<notin> processedContent st"
    then obtain p where p:
      "extractPostFromElement pd now el c (processedContent st) =
         (Some p, insert (contentKey el) (processedContent st))"
      by blast
    show ?thesis
      using Cons [of "st\<lparr>foundPosts := foundPosts st @ [p],
                          processedContent := insert (contentKey el) (processedContent st)\<rparr>"] p
      by auto
  qed
qed

lemma scanElements_covers:
  assumes "el \<in> set els" and "15 \<le> length (trim (textContent el))"
    and "fst (detectRecency pd now el c)"
  shows "contentKey el \<in> processedContent (scanElements pd now c els st)"
  using assms(1)
proof (induction els arbitrary: st)
  case Nil
  then show ?case by simp
next
  case (Cons x xs)
  obtain r seen where ex: "extractPostFromElement pd now x c (processedContent st) = (r, seen)"
    by (cases "extractPostFromElement pd now x c (processedContent st)")
  define st' where
    "st' = (case r of None \<Rightarrow> st\<lparr>processedContent := seen\<rparr>
            | Some p \<Rightarrow> st\<lparr>foundPosts := foundPosts st @ [p], processedContent := seen\<rparr>)"
  have step: "scanElements pd now c (x # xs) st = scanElements pd now c xs st'"
    using ex by (simp add: st'_def split: option.splits)
  have seen': "processedContent st' = seen"
    by (simp add: st'_def split: option.splits)
  show ?case
  proof (cases "el = x")
    case True
    have "contentKey el \<in> seen"
      using extractPost_qualifying [OF assms(2,3), of "processedContent st"] ex True by simp
    then show ?thesis
      using scanElements_seen_mono [of st' pd now c xs] seen' step by auto
  next
    case False
    then have "el \<in> set xs" using Cons.prems by simp
    then show ?thesis using Cons.IH step by simp
  qed
qed

lemma scanInvariant_bookkeeping:
  "scanInvariant (st\<lparr>scanErrors := errs\<rparr>) = scanInvariant st"
  "scanInvariant (st\<lparr>totalElementsScanned := n\<rparr>) = scanInvariant st"
  by (simp_all add: scanInvariant_def)

lemma scanSelectors_invariant:
  "scanInvariant st \<Longrightarrow> scanInvariant (scanSelectors pd now c doc sels st)"
proof (induction sels arbitrary: st)
  case Nil
  then show ?case by simp
next
  case (Cons sel sels)
  then show ?case
    by (cases "querySelectorAll doc sel")
      (simp_all add: scanInvariant_bookkeeping scanElements_invariant)
qed

lemma scanSelectors_seen_mono:
  "processedContent st \<subseteq> processedContent (scanSelectors pd now c doc sels st)"
proof (induction sels arbitrary: st)
  case Nil
  then show ?case by simp
next
  case (Cons sel sels)
  show ?case
  proof (cases "querySelectorAll doc sel")
    case (Inl e)
    have "processedContent st \<subseteq> processedContent (scanSelectors pd now c doc sels (st\<lparr>scanErrors := errs\<rparr>))"
      for errs
      using Cons [of "st\<lparr>scanErrors := errs\<rparr>"] by simp
    then show ?thesis using Inl by simp
  next
    case (Inr els)
    let ?st = "st\<lparr>totalElementsScanned := totalElementsScanned st + length els\<rparr>"
    have "processedContent st \<subseteq> processedContent (scanElements pd now c els ?st)"
      using scanElements_seen_mono [of ?st pd now c els] by simp
    then show ?thesis
      using Inr Cons [of "scanElements pd now c els ?st"] by auto
  qed
qed

lemma scanSelectors_covers:
  assumes "sel \<in> set sels" and "querySelectorAll doc sel = Inr els" and "el \<in> set els"
    and "15 \<le> length (trim (textContent el))" and "fst (detectRecency pd now el c)"
  shows "contentKey el \<in> processedContent (scanSelectors pd now c doc sels st)"
  using assms(1)
proof (induction sels arbitrary: st)
  case Nil
  then show ?case by simp
next
  case (Cons x xs)
  show ?case
  proof (cases "sel = x")
    case True
    let ?st = "st\<lparr>totalElementsScanned := totalElementsScanned st + length els\<rparr>"
    have "contentKey el \<in> processedContent (scanElements pd now c els ?st)"
      using assms(3,4,5) by (rule scanElements_covers)
    then show ?thesis
      using True assms(2) scanSelectors_seen_mono [of "scanElements pd now c els ?st" pd now c doc xs]
      by auto
  next
    case False
    then have "sel \<in> set xs" using Cons.prems by simp
    then show ?thesis using Cons.IH by (cases "querySelectorAll doc x") simp_all
  qed
qed

lemma findActivityFeedPosts_invariant:
  "scanInvariant st \<Longrightarrow> scanInvariant (findActivityFeedPosts pd now c doc sels st)"
proof (induction sels arbitrary: st)
  case Nil
  then show ?case by simp
next
  case (Cons sel sels)
  then show ?case
    by (cases "querySelectorAll doc sel") (simp_all add: scanElements_invariant)
qed

lemma findActivityFeedPosts_seen_mono:
  "processedContent st \<subseteq> processedContent (findActivityFeedPosts pd now c doc sels st)"
proof (induction sels arbitrary: st)
  case Nil
  then show ?case by simp
next
  case (Cons sel sels)
  show ?case
  proof (cases "querySelectorAll doc sel")
    case (Inl e)
    then show ?thesis using Cons by simp
  next
    case (Inr els)
    then show ?thesis
      using Cons [of "scanElements pd now c els st"] scanElements_seen_mono [of st pd now c els]
      by auto
  qed
qed

lemma findActivityFeedPosts_covers:
  assumes "sel \<in> set sels" and "querySelectorAll doc sel = Inr els" and "el \<in> set els"
    and "15 \<le> length (trim (textContent el))" and "fst (detectRecency pd now el c)"
  shows "contentKey el \<in> processedContent (findActivityFeedPosts pd now c doc sels st)"
  using assms(1)
proof (induction sels arbitrary: st)
  case Nil
  then show ?case by simp
next
  case (Cons x xs)
  show ?case
  proof (cases "sel = x")
    case True
    have "contentKey el \<in> processedContent (scanElements pd now c els st)"
      using assms(3,4,5) by (rule scanElements_covers)
    then show ?thesis
      using True assms(2)
        findActivityFeedPosts_seen_mono [of "scanElements pd now c els st" pd now c doc xs]
      by auto
  next
    case False
    then have "sel \<in> set xs" using Cons.prems by simp
    then show ?thesis using Cons.IH by (cases "querySelectorAll doc x") simp_all
  qed
qed

lemma findRecentPostsEnhanced_invariant:
  "scanInvariant (findRecentPostsEnhanced pd now doc c)"
proof -
  have "scanInvariant \<lparr>foundPosts = [], processedContent = {}, totalElementsScanned = 0,
                        scanErrors = []\<rparr>"
    by (simp add: scanInvariant_def)
  then show ?thesis
    by (simp add: findRecentPostsEnhanced_def Let_def scanSelectors_invariant
        findActivityFeedPosts_invariant)
qed

lemma findRecentPostsEnhanced_covers:
  assumes "sel \<in> set (scannedSelectors doc)" and "querySelectorAll doc sel = Inr els"
    and "el \<in> set els" and "15 \<le> length (trim (textContent el))"
    and "fst (detectRecency pd now el c)"
  shows "contentKey el \<in> processedContent (findRecentPostsEnhanced pd now doc c)"
proof -
  let ?st = "scanSelectors pd now c doc activitySelectors
               \<lparr>foundPosts = [], processedContent = {}, totalElementsScanned = 0,
                scanErrors = []\<rparr>"
  show ?thesis
  proof (cases "sel \<in> set activitySelectors")
    case True
    then have "contentKey el \<in> processedContent ?st"
      using assms(2-5) by (rule scanSelectors_covers)
    then show ?thesis
      using findActivityFeedPosts_seen_mono [of ?st pd now c doc feedSelectors]
      by (auto simp: findRecentPostsEnhanced_def Let_def)
  next
    case False
    then have feed: "sel \<in> set feedSelectors"
      and url: "includesStr (href doc) ''/recent-activity/'' \<or>
                includesStr (href doc) ''/detail/recent-activity/''"
      using assms(1) by (auto simp: scannedSelectors_def split: if_splits)
    have "contentKey el \<in> processedContent (findActivityFeedPosts pd now c doc feedSelectors ?st)"
      using feed assms(2-5) by (rule findActivityFeedPosts_covers)
    then show ?thesis
      using url by (auto simp: findRecentPostsEnhanced_def Let_def)
  qed
qed

lemma distinct_key_once:
  "distinct (map f xs) \<Longrightarrow> k \<in> set (map f xs) \<Longrightarrow> length (filter (\<lambda>x. f x = k) xs) = 1"
proof (induction xs)
  case Nil
  then show ?case by simp
next
  case (Cons x xs)
  show ?case
  proof (cases "f x = k")
    case True
    then have "k \<notin> f ` set xs" using Cons.prems(1) by simp
    then have "\<forall>y\<in>set xs. f y \<noteq> k" by blast
    then have "filter (\<lambda>x. f x = k) xs = []" by (simp add: filter_empty_conv)
    then show ?thesis using True by simp
  next
    case False
    then show ?thesis using Cons by auto
  qed
qed

text \<open>
  Claim C5. The records of one scan have pairwise distinct de-duplication keys; and a
  fragment that qualifies (at least 15 characters, classified recent), however many
  selectors of the scan match it or another fragment with the same key, is answered by
  exactly one record with that key. The scan covers the activity selectors and, on a
  recent-activity page, the feed selectors, which share the de-duplication set.
\<close>

theorem scan_deduplicates:
  "distinct (map postKey (foundPosts (findRecentPostsEnhanced pd now doc c))) \<and>
   (\<forall>sel els el.
      sel \<in> set (scannedSelectors doc) \<and> querySelectorAll doc sel = Inr els \<and> el \<in> set els \<and>
      15 \<le> length (trim (textContent el)) \<and> fst (detectRecency pd now el c) \<longrightarrow>
      length (filter (\<lambda>p. postKey p = contentKey el)
                (foundPosts (findRecentPostsEnhanced pd now doc c))) = 1)"
proof (intro conjI allI impI)
  show d: "distinct (map postKey (foundPosts (findRecentPostsEnhanced pd now doc c)))"
    using findRecentPostsEnhanced_invariant [of pd now doc c] by (simp add: scanInvariant_def)
  fix sel els el
  assume a: "sel \<in> set (scannedSelectors doc) \<and> querySelectorAll doc sel = Inr els \<and> el \<in> set els \<and>
      15 \<le> length (trim (textContent el)) \<and> fst (detectRecency pd now el c)"
  then have "contentKey el \<in> processedContent (findRecentPostsEnhanced pd now doc c)"
    using findRecentPostsEnhanced_covers [of sel doc els el pd now c] by blast
  then have "contentKey el \<in> set (map postKey (foundPosts (findRecentPostsEnhanced pd now doc c)))"
    using findRecentPostsEnhanced_invariant [of pd now doc c] by (simp add: scanInvariant_def)
  with d show "length (filter (\<lambda>p. postKey p = contentKey el)
                (foundPosts (findRecentPostsEnhanced pd now doc c))) = 1"
    by (rule distinct_key_once)
qed


section \<open>The statements on the example pages\<close>

lemmas fixture_defs = fixedHost_def fixedCutoff_def staleMarker_def freshMarker_def
  staleFragment_def freshFragment_def findTimeElement_def

lemma staleFragment_text: "trim (textContent staleFragment) = ''Posted an update 2 hours ago''"
  by code_simp

lemma staleFragment_phrase:
  "parseTimeFromText ''Posted an update 2 hours ago'' =
     Some \<lparr>isRecent = True, timeStr = ''Text: 2 hours ago''\<rparr>"
  by code_simp

lemma freshFragment_no_phrase:
  "parseTimeFromText (trim (textContent freshFragment)) = None"
  by code_simp

text \<open>
  Against claim C1 as stated: a fragment whose explicit timestamp (1 January 2020) lies
  before the cutoff, and which is classified recent all the same, through the phrase
  "2 hours ago" in its text.
\<close>

theorem stale_timestamp_counterexample:
  "findTimeElement staleFragment = Some staleMarker \<and>
   datetime staleMarker = Some ''2020-01-01T00:00:00.000Z'' \<and>
   dateParser fixedHost ''2020-01-01T00:00:00.000Z'' = Some 1577836800000 \<and>
   \<not> (fixedCutoff \<le> 1577836800000 \<and> 1577836800000 \<le> scanTime fixedHost) \<and>
   fst (detectRecency (dateParser fixedHost) (scanTime fixedHost) staleFragment fixedCutoff)"
  by code_simp

text \<open>
  The statement for C1 at two fragments: one with a timestamp inside the window, one
  with a timestamp outside it and a time phrase in its text.
\<close>

theorem explicit_timestamp_recency_witness:
  "detectRecency (dateParser fixedHost) (scanTime fixedHost) freshFragment fixedCutoff =
     (True, ''2023-11-14T20:00:00.000Z'') \<and>
   fst (detectRecency (dateParser fixedHost) (scanTime fixedHost) staleFragment fixedCutoff)"
proof -
  have f1: "findTimeElement freshFragment = Some freshMarker"
    by (simp add: fixture_defs)
  have f2: "datetime freshMarker = Some ''2023-11-14T20:00:00.000Z''"
    by (simp add: fixture_defs)
  have f3: "dateParser fixedHost ''2023-11-14T20:00:00.000Z'' = Some 1699992000000"
    by (simp add: fixture_defs)
  have f4: "fixedCutoff \<le> 1699992000000 \<and> 1699992000000 \<le> scanTime fixedHost"
    by (simp add: fixture_defs)
  have s1: "findTimeElement staleFragment = Some staleMarker"
    by (simp add: fixture_defs)
  have s2: "datetime staleMarker = Some ''2020-01-01T00:00:00.000Z''"
    by (simp add: fixture_defs)
  have s3: "dateParser fixedHost ''2020-01-01T00:00:00.000Z'' = Some 1577836800000"
    by (simp add: fixture_defs)
  have s4: "\<not> (fixedCutoff \<le> 1577836800000 \<and> 1577836800000 \<le> scanTime fixedHost)"
    by (simp add: fixture_defs)
  have s5: "parseTimeFromText (trim (textContent staleFragment)) \<noteq> None"
    by (simp add: staleFragment_text staleFragment_phrase)
  show ?thesis
    using explicit_timestamp_recency [where el = freshFragment and te = freshMarker
        and d = "''2023-11-14T20:00:00.000Z''" and parseDate = "dateParser fixedHost"
        and T = 1699992000000 and cutoff = fixedCutoff and now = "scanTime fixedHost"]
      explicit_timestamp_recency [where el = staleFragment and te = staleMarker
        and d = "''2020-01-01T00:00:00.000Z''" and parseDate = "dateParser fixedHost"
        and T = 1577836800000 and cutoff = fixedCutoff and now = "scanTime fixedHost"]
      f1 f2 f3 f4 s1 s2 s3 s4 s5
    by simp
qed

text \<open>
  Against claim C10 as stated: a fragment with the stale timestamp whose text is
  "2 hours ago" is classified recent, yet it is not emitted, because its text is shorter
  than 15 characters.
\<close>

theorem short_fragment_counterexample:
  "findTimeElement shortStaleFragment = Some staleMarker \<and>
   datetime staleMarker = Some ''2020-01-01T00:00:00.000Z'' \<and>
   dateParser fixedHost ''2020-01-01T00:00:00.000Z'' = Some 1577836800000 \<and>
   \<not> (fixedCutoff \<le> 1577836800000 \<and> 1577836800000 \<le> scanTime fixedHost) \<and>
   includesStr (textContent shortStaleFragment) ''2 hours ago'' \<and>
   fst (detectRecency (dateParser fixedHost) (scanTime fixedHost) shortStaleFragment fixedCutoff) \<and>
   fst (extractPostFromElement (dateParser fixedHost) (scanTime fixedHost) shortStaleFragment
          fixedCutoff {}) = None"
  by code_simp

text \<open>
  The statement for C10 at the longer fragment with the stale timestamp, whose text
  holds "2 hours ago" after a prefix without digits: it is emitted.
\<close>

theorem stale_timestamp_falls_through_witness:
  "extractPostFromElement (dateParser fixedHost) (scanTime fixedHost) staleFragment
     fixedCutoff {} =
     (Some \<lparr>postText = ''Posted an update 2 hours ago'', postTime = ''Text: 2 hours ago'',
            postKind = ImagePost, postDetails = None\<rparr>,
      {contentKey staleFragment})"
proof -
  have s1: "findTimeElement staleFragment = Some staleMarker"
    by (simp add: fixture_defs)
  have s2: "datetime staleMarker = Some ''2020-01-01T00:00:00.000Z''"
    by (simp add: fixture_defs)
  have s3: "dateParser fixedHost ''2020-01-01T00:00:00.000Z'' = Some 1577836800000"
    by (simp add: fixture_defs)
  have s4: "\<not> (fixedCutoff \<le> 1577836800000 \<and> 1577836800000 \<le> scanTime fixedHost)"
    by (simp add: fixture_defs)
  have s5: "parseTimeFromText (trim (textContent staleFragment)) =
              Some \<lparr>isRecent = True, timeStr = ''Text: 2 hours ago''\<rparr>"
    by (simp add: staleFragment_text staleFragment_phrase)
  have s6: "trim (textContent staleFragment) = ''Posted an update '' @ ''2'' @ '' hours ago'' @ [] \<and>
            ''2'' \<noteq> [] \<and> list_all isDigit ''2'' \<and>
            list_all (\<lambda>c. \<not> isDigit c) ''Posted an update '' \<and> parseInt ''2'' \<le> 24"
    by (simp add: staleFragment_text isDigit_def parseInt_def digitValue_def)
  have s7: "15 \<le> length (trim (textContent staleFragment)) \<and> contentKey staleFragment \<notin> {}"
    by (simp add: staleFragment_text)
  have s8: "parseOtherAttributes staleMarker = None"
    by (simp add: parseOtherAttributes_def parseAttribute_def staleMarker_def)
  have k: "detectPostType staleFragment = ImagePost"
    by (simp add: detectPostType_def staleFragment_def)
  note t = stale_timestamp_falls_through [where el = staleFragment and te = staleMarker
        and d = "''2020-01-01T00:00:00.000Z''" and parseDate = "dateParser fixedHost"
        and T = 1577836800000 and cutoff = fixedCutoff and now = "scanTime fixedHost"
        and seen = "{}", OF s1 s2 s3 s4]
  have r: "fst (detectRecency (dateParser fixedHost) (scanTime fixedHost) staleFragment fixedCutoff)"
    using t s6 by blast
  have l: "snd (detectRecency (dateParser fixedHost) (scanTime fixedHost) staleFragment fixedCutoff) =
             ''Text: 2 hours ago''"
    using t s5 s8 by auto
  show ?thesis
    using t r s7 l k by (simp add: staleFragment_text)
qed

lemma overlap_selectors:
  "''.feed-shared-update-v2'' \<in> set (scannedSelectors overlapDoc)"
  "''.update-components-text'' \<in> set (scannedSelectors overlapDoc)"
  by (simp_all add: scannedSelectors_def activitySelectors_def)

text \<open>
  The statement for C5 on a page where two selectors match the same fragment: one
  record.
\<close>

theorem scan_deduplicates_witness:
  "overlapQuery ''.feed-shared-update-v2'' = Inr [staleFragment] \<and>
   overlapQuery ''.update-components-text'' = Inr [staleFragment] \<and>
   length (filter (\<lambda>p. postKey p = contentKey staleFragment)
             (foundPosts (findRecentPostsEnhanced (dateParser fixedHost) (scanTime fixedHost)
                overlapDoc fixedCutoff))) = 1"
proof -
  have q1: "querySelectorAll overlapDoc ''.feed-shared-update-v2'' = Inr [staleFragment]"
    by (simp add: overlapDoc_def overlapQuery_def)
  have q2: "overlapQuery ''.update-components-text'' = Inr [staleFragment]"
    by (simp add: overlapQuery_def)
  have l: "15 \<le> length (trim (textContent staleFragment))"
    by (simp add: staleFragment_text)
  have r: "fst (detectRecency (dateParser fixedHost) (scanTime fixedHost) staleFragment fixedCutoff)"
    by code_simp
  have m: "staleFragment \<in> set [staleFragment]"
    by simp
  have "length (filter (\<lambda>p. postKey p = contentKey staleFragment)
             (foundPosts (findRecentPostsEnhanced (dateParser fixedHost) (scanTime fixedHost)
                overlapDoc fixedCutoff))) = 1"
    using scan_deduplicates [of "dateParser fixedHost" "scanTime fixedHost" overlapDoc fixedCutoff]
      overlap_selectors(1) q1 m l r
    by blast
  then show ?thesis
    using q2 by (simp add: overlapQuery_def)
qed

section \<open>Phrases and names of the specification\<close>







lemma name_LinkedIn: "\<not> isValidProfileName ''LinkedIn''"
  by code_simp

lemma name_Premium: "\<not> isValidProfileName ''(Premium)''"
  by code_simp

lemma name_123: "\<not> isValidProfileName ''123''"
  by code_simp

lemma name_View: "\<not> isValidProfileName ''View''"
  by code_simp

lemma name_empty: "\<not> isValidProfileName ''''"
  by (simp add: isValidProfileName_def)

lemma name_Jane_Doe: "isValidProfileName ''Jane Doe''"
  by code_simp

lemma name_Dr_Smith: "isValidProfileName ''Dr. A. Smith''"
  by code_simp

text \<open>
  Claim C6. The name validation rejects "LinkedIn", "(Premium)", "123", "View" and the
  empty string, and accepts "Jane Doe" and "Dr. A. Smith".
\<close>

theorem fixture_names:
  "\<not> isValidProfileName ''LinkedIn'' \<and>
   \<not> isValidProfileName ''(Premium)'' \<and>
   \<not> isValidProfileName ''123'' \<and>
   \<not> isValidProfileName ''View'' \<and>
   \<not> isValidProfileName '''' \<and>
   isValidProfileName ''Jane Doe'' \<and>
   isValidProfileName ''Dr. A. Smith''"
  using name_LinkedIn name_Premium name_123 name_View name_empty name_Jane_Doe name_Dr_Smith
  by (intro conjI)

section \<open>The orchestrator\<close>

lemma estimatePosts_bounds: "0 \<le> estimatePosts rnd x \<and> estimatePosts rnd x \<le> 12"
  by (simp add: estimatePosts_def)

lemma fallback_count_bounds:
  "0 \<le> count (performAdvancedFallbackDetection rnd doc) \<and>
   count (performAdvancedFallbackDetection rnd doc) \<le> 12"
  using estimatePosts_bounds
  by (simp add: performAdvancedFallbackDetection_def Let_def split: option.splits)

lemma isValidProfileName_nonempty: "isValidProfileName s \<Longrightarrow> s \<noteq> []"
  by (auto simp: isValidProfileName_def)

lemma firstValidName_nonempty: "firstValidName xs \<noteq> []"
  by (induction xs rule: firstValidName.induct) simp_all

lemma emergencyName_nonempty: "emergencyName els \<noteq> []"
  by (induction els) (auto simp: emergencyNameCheck_def)

lemma emergencyName_checked:
  "emergencyName els = ''Unknown'' \<or> emergencyNameCheck (emergencyName els)"
  by (induction els) auto

lemma emergency_result_facts:
  "0 \<le> activityScore (performEmergencyAnalysis doc) \<and>
   activityScore (performEmergencyAnalysis doc) \<le> 3 \<and>
   emProfileName (performEmergencyAnalysis doc) \<noteq> [] \<and>
   (emProfileName (performEmergencyAnalysis doc) = ''Unknown'' \<or>
    emergencyNameCheck (emProfileName (performEmergencyAnalysis doc)))"
  using emergencyName_nonempty emergencyName_checked
  by (auto simp: performEmergencyAnalysis_def Let_def split: sum.splits option.splits)

lemma scanStage_facts:
  "stCount (scanStage h doc info) =
     int (length (foundPosts (findRecentPostsEnhanced (dateParser h) (scanTime h) doc
                                (startTime h - 24 * 60 * 60 * 1000))))"
  "stPosts (scanStage h doc info) =
     foundPosts (findRecentPostsEnhanced (dateParser h) (scanTime h) doc
                   (startTime h - 24 * 60 * 60 * 1000))"
  "stName (scanStage h doc info) = extractProfileNameEnhanced doc"
  "usedEmergencyAnalysis (stDebug (scanStage h doc info)) = False"
  by (simp_all add: scanStage_def Let_def)

lemma fallbackStage_facts:
  "stName (fallbackStage rnd doc st) = stName st"
  "usedEmergencyAnalysis (stDebug (fallbackStage rnd doc st)) = usedEmergencyAnalysis (stDebug st)"
  "stCount (fallbackStage rnd doc st) =
     (if stCount st = 0 then count (performAdvancedFallbackDetection rnd doc) else stCount st)"
  "stPosts (fallbackStage rnd doc st) =
     (if stCount st = 0 \<and> 0 < count (performAdvancedFallbackDetection rnd doc)
      then stPosts st @ [fallbackPost (performAdvancedFallbackDetection rnd doc)]
      else stPosts st)"
  using fallback_count_bounds [of rnd doc]
  by (auto simp: fallbackStage_def Let_def)

lemma emergencyStage_facts:
  "usedEmergencyAnalysis (stDebug (emergencyStage doc st)) =
     (usedEmergencyAnalysis (stDebug st) \<or> (stName st = ''Unknown'' \<and> stCount st = 0))"
  "stCount (emergencyStage doc st) =
     (if stName st = ''Unknown'' \<and> stCount st = 0
      then activityScore (performEmergencyAnalysis doc) else stCount st)"
  "stPosts (emergencyStage doc st) =
     (if stName st = ''Unknown'' \<and> stCount st = 0 \<and> 0 < activityScore (performEmergencyAnalysis doc)
      then stPosts st @ [emergencyPost] else stPosts st)"
  "stName (emergencyStage doc st) =
     (if stName st = ''Unknown'' \<and> stCount st = 0
      then emProfileName (performEmergencyAnalysis doc) else stName st)"
  using emergency_result_facts [of doc]
  by (auto simp: emergencyStage_def Let_def)

lemma extractProfileData_throws: "extractProfileData rnd h doc = Inl e \<longleftrightarrow> pageInfo doc = Inl e"
  by (simp add: extractProfileData_def Let_def split: sum.splits)

lemma extractProfileData_result:
  assumes "extractProfileData rnd h doc = Inr r"
  obtains info where "pageInfo doc = Inr info"
    and "postCount r = stCount (emergencyStage doc (fallbackStage rnd doc (scanStage h doc info)))"
    and "profileName r = stName (emergencyStage doc (fallbackStage rnd doc (scanStage h doc info)))"
    and "posts r = Some (map displayPost
            (stPosts (emergencyStage doc (fallbackStage rnd doc (scanStage h doc info)))))"
    and "debug r = Debug (stDebug (emergencyStage doc (fallbackStage rnd doc (scanStage h doc info))))"
    and "error r = None"
  using assms by (auto simp: extractProfileData_def Let_def split: sum.splits)


text \<open>
  Claim C3. \<^verbatim>\<open>analyzeCurrentProfile\<close> always yields a result record, with a
  non-negative count and a non-empty name. When \<^verbatim>\<open>extractProfileData\<close> throws, the
  record is the error record: count 0, name "Error", the message attached. Otherwise
  it is the record \<^verbatim>\<open>extractProfileData\<close> returned, with no error and with its posts.
  \<^verbatim>\<open>extractProfileData\<close> throws only when reading the document properties throws: a
  failing selector, strategy or missing body never leaves it.
\<close>

theorem analyzeCurrentProfile_total:
  "0 \<le> postCount (analyzeCurrentProfile rnd h doc) \<and>
   profileName (analyzeCurrentProfile rnd h doc) \<noteq> [] \<and>
   (\<forall>e. extractProfileData rnd h doc = Inl e \<longrightarrow>
        analyzeCurrentProfile rnd h doc =
          \<lparr>postCount = 0, profileName = ''Error'', analyzedAt = errorTime h, url = href doc,
           posts = None, error = Some (message e), debug = DebugError (message e)\<rparr>) \<and>
   (\<forall>r. extractProfileData rnd h doc = Inr r \<longrightarrow>
        analyzeCurrentProfile rnd h doc = r \<and> error r = None \<and> posts r \<noteq> None) \<and>
   (\<forall>e. extractProfileData rnd h doc = Inl e \<longleftrightarrow> pageInfo doc = Inl e)"
proof -
  have t: "\<forall>e. extractProfileData rnd h doc = Inl e \<longleftrightarrow> pageInfo doc = Inl e"
    by (simp add: extractProfileData_throws)
  have main:
    "0 \<le> postCount (analyzeCurrentProfile rnd h doc) \<and>
     profileName (analyzeCurrentProfile rnd h doc) \<noteq> [] \<and>
     (\<forall>e. extractProfileData rnd h doc = Inl e \<longrightarrow>
        analyzeCurrentProfile rnd h doc =
          \<lparr>postCount = 0, profileName = ''Error'', analyzedAt = errorTime h, url = href doc,
           posts = None, error = Some (message e), debug = DebugError (message e)\<rparr>) \<and>
     (\<forall>r. extractProfileData rnd h doc = Inr r \<longrightarrow>
        analyzeCurrentProfile rnd h doc = r \<and> error r = None \<and> posts r \<noteq> None)"
  proof (cases "extractProfileData rnd h doc")
    case (Inl e)
    then show ?thesis
      by (simp add: analyzeCurrentProfile_def)
  next
    case (Inr r)
    from Inr obtain info where r:
      "postCount r = stCount (emergencyStage doc (fallbackStage rnd doc (scanStage h doc info)))"
      "profileName r = stName (emergencyStage doc (fallbackStage rnd doc (scanStage h doc info)))"
      "posts r = Some (map displayPost
              (stPosts (emergencyStage doc (fallbackStage rnd doc (scanStage h doc info)))))"
      "error r = None"
      by (rule extractProfileData_result)
    have c: "0 \<le> postCount r"
      using fallback_count_bounds [of rnd doc] emergency_result_facts [of doc]
      by (simp add: r emergencyStage_facts fallbackStage_facts scanStage_facts)
    have n: "profileName r \<noteq> []"
      using firstValidName_nonempty [of "nameStrategies doc"] emergency_result_facts [of doc]
      by (simp add: r emergencyStage_facts fallbackStage_facts scanStage_facts
          extractProfileNameEnhanced_def)
    have a: "analyzeCurrentProfile rnd h doc = r"
      using Inr by (simp add: analyzeCurrentProfile_def)
    show ?thesis
      using c n a Inr r(3,4) by simp
  qed
  show ?thesis
    using main t by blast
qed

text \<open>
  Claim C4, as the content script has it. In every result of \<^verbatim>\<open>extractProfileData\<close>
  the posts are at most \<open>postCount\<close> many. When the scan found records, the posts are
  those records and \<open>postCount\<close> is their number. When the scan found none,
  \<open>postCount\<close> is an estimate and the posts hold only the record synthesized for it:
  the count of the fallback estimator and its record when that count is positive;
  otherwise, when the name is still unknown and the emergency pass has a positive
  activity score, the smaller of that score and 5, with the emergency record; otherwise
  0 and no post.
\<close>

theorem postCount_and_posts:
  assumes "extractProfileData rnd h doc = Inr r"
  shows "\<exists>ps. posts r = Some ps \<and> int (length ps) \<le> postCount r \<and>
           (foundPosts (findRecentPostsEnhanced (dateParser h) (scanTime h) doc
                          (startTime h - 24 * 60 * 60 * 1000)) \<noteq> [] \<longrightarrow>
              ps = map displayPost
                     (foundPosts (findRecentPostsEnhanced (dateParser h) (scanTime h) doc
                                    (startTime h - 24 * 60 * 60 * 1000))) \<and>
              postCount r = int (length ps)) \<and>
           (foundPosts (findRecentPostsEnhanced (dateParser h) (scanTime h) doc
                          (startTime h - 24 * 60 * 60 * 1000)) = [] \<longrightarrow>
              (0 < count (performAdvancedFallbackDetection rnd doc) \<longrightarrow>
                 postCount r = count (performAdvancedFallbackDetection rnd doc) \<and>
                 ps = [displayPost (fallbackPost (performAdvancedFallbackDetection rnd doc))]) \<and>
              (\<not> 0 < count (performAdvancedFallbackDetection rnd doc) \<and>
               extractProfileNameEnhanced doc = ''Unknown'' \<and>
               0 < activityScore (performEmergencyAnalysis doc) \<longrightarrow>
                 postCount r = min (activityScore (performEmergencyAnalysis doc)) 5 \<and>
                 ps = [displayPost emergencyPost]) \<and>
              (\<not> 0 < count (performAdvancedFallbackDetection rnd doc) \<and>
               \<not> (extractProfileNameEnhanced doc = ''Unknown'' \<and>
                  0 < activityScore (performEmergencyAnalysis doc)) \<longrightarrow>
                 postCount r = 0 \<and> ps = []))"
proof -
  from assms obtain info where r:
    "postCount r = stCount (emergencyStage doc (fallbackStage rnd doc (scanStage h doc info)))"
    "posts r = Some (map displayPost
            (stPosts (emergencyStage doc (fallbackStage rnd doc (scanStage h doc info)))))"
    by (rule extractProfileData_result)
  let ?scan = "foundPosts (findRecentPostsEnhanced (dateParser h) (scanTime h) doc
                          (startTime h - 24 * 60 * 60 * 1000))"
  show ?thesis
  proof (cases "?scan = []")
    case True
    then show ?thesis
      using fallback_count_bounds [of rnd doc] emergency_result_facts [of doc]
      by (auto simp: r emergencyStage_facts fallbackStage_facts scanStage_facts)
  next
    case False
    then show ?thesis
      by (simp add: r emergencyStage_facts fallbackStage_facts scanStage_facts)
  qed
qed

text \<open>
  Claim C7. The estimate of the fallback estimator lies between 0 and 12 for every
  document; and for a document with a body it is
  \<open>max 0 (min \<lfloor>total / 2.5\<rfloor> 12)\<close>, where \<open>total\<close> is the sum of the time-pattern score,
  the contextual-activity score and the structural score, in the arithmetic of the
  script (for every rounding \<open>rnd\<close>).
\<close>

theorem estimate_formula_and_bounds:
  "0 \<le> count (performAdvancedFallbackDetection rnd doc) \<and>
   count (performAdvancedFallbackDetection rnd doc) \<le> 12 \<and>
   (\<forall>b. body doc = Some b \<longrightarrow>
      (\<exists>d. details (performAdvancedFallbackDetection rnd doc) = Inr d \<and>
           timePatternScore d =
             fst (scorePatterns rnd (toLowerCase (bodyText b)) activityPatterns (0, [])) \<and>
           contextualActivity d = scoreKeywords rnd (toLowerCase (bodyText b)) activityKeywords 0 \<and>
           structuralActivity d = scoreStructure rnd (toLowerCase (innerHTML b)) linkedinPatterns 0 \<and>
           totalScore d =
             fadd rnd (fadd rnd (timePatternScore d) (contextualActivity d)) (structuralActivity d) \<and>
           count (performAdvancedFallbackDetection rnd doc) =
             max 0 (min \<lfloor>fdiv rnd (totalScore d) (rnd 2.5)\<rfloor> 12)))"
  using fallback_count_bounds [of rnd doc]
  by (simp add: performAdvancedFallbackDetection_def Let_def estimatePosts_def)

text \<open>
  Claim C9, as the script has it. The name check of the emergency pass is the standard
  validation with a length window added, so it accepts no name the standard validation
  rejects. The emergency pass runs exactly when the extracted name is still "Unknown"
  and the count is still 0 (no record from the scan, estimate 0 from the fallback); a
  name it supplies passed the emergency check, and when it does not run the name is the
  extracted one.
\<close>

theorem emergency_pass_gate:
  assumes "extractProfileData rnd h doc = Inr r"
  shows "(emergencyNameCheck name \<longrightarrow> isValidProfileName name) \<and>
         (\<exists>d. debug r = Debug d \<and>
            (usedEmergencyAnalysis d \<longleftrightarrow>
               extractProfileNameEnhanced doc = ''Unknown'' \<and>
               foundPosts (findRecentPostsEnhanced (dateParser h) (scanTime h) doc
                             (startTime h - 24 * 60 * 60 * 1000)) = [] \<and>
               count (performAdvancedFallbackDetection rnd doc) = 0) \<and>
            (usedEmergencyAnalysis d \<longrightarrow>
               profileName r = ''Unknown'' \<or> emergencyNameCheck (profileName r)) \<and>
            (\<not> usedEmergencyAnalysis d \<longrightarrow> profileName r = extractProfileNameEnhanced doc))"
proof -
  from assms obtain info where r:
    "profileName r = stName (emergencyStage doc (fallbackStage rnd doc (scanStage h doc info)))"
    "debug r = Debug (stDebug (emergencyStage doc (fallbackStage rnd doc (scanStage h doc info))))"
    by (rule extractProfileData_result)
  have "emergencyNameCheck name \<longrightarrow> isValidProfileName name"
    by (simp add: emergencyNameCheck_def)
  then show ?thesis
    using emergency_result_facts [of doc]
    by (auto simp: r emergencyStage_facts fallbackStage_facts scanStage_facts)
qed

text \<open>
  Against claim C9 as stated: "Bob" is accepted by the standard validation and rejected
  by the name check of the emergency pass.
\<close>

theorem emergency_check_counterexample:
  "isValidProfileName ''Bob'' \<and> \<not> emergencyNameCheck ''Bob''"
  by code_simp

section \<open>Monotonicity of the estimate\<close>

lemma bump_pow_fixed:
  assumes "\<forall>x. rnd (rnd x) = rnd x" and "rnd s = s"
  shows "rnd (((\<lambda>a. fadd rnd a w) ^^ n) s) = ((\<lambda>a. fadd rnd a w) ^^ n) s"
  using assms by (induction n) (simp_all add: fadd_def)

lemma bump_pow_mono:
  assumes "mono rnd" and "\<forall>x. rnd (rnd x) = rnd x" and "0 \<le> w"
    and "rnd a = a" and "rnd b = b" and "a \<le> b" and "n \<le> m"
  shows "((\<lambda>a. fadd rnd a w) ^^ n) a \<le> ((\<lambda>a. fadd rnd a w) ^^ m) b"
  using assms(7)
proof (induction m arbitrary: n)
  case 0
  then show ?case using assms(6) by simp
next
  case (Suc m)
  let ?g = "\<lambda>a. fadd rnd a w"
  show ?case
  proof (cases "n = Suc m")
    case True
    have "(?g ^^ m) a \<le> (?g ^^ m) b" using Suc.IH [of m] by simp
    then have "rnd ((?g ^^ m) a + w) \<le> rnd ((?g ^^ m) b + w)"
      using assms(1) by (simp add: monoD)
    then show ?thesis using True by (simp add: fadd_def)
  next
    case False
    then have "n \<le> m" using Suc.prems by simp
    then have le: "(?g ^^ n) a \<le> (?g ^^ m) b" by (rule Suc.IH)
    have "(?g ^^ m) b = rnd ((?g ^^ m) b)"
      using bump_pow_fixed [where rnd = rnd and s = b and w = w and n = m] assms(2,5) by simp
    also have "\<dots> \<le> rnd ((?g ^^ m) b + w)"
      using assms(1,3) by (simp add: monoD)
    finally show ?thesis using le by (simp add: fadd_def)
  qed
qed

lemma scoreMatches_fst:
  "fst (scoreMatches rnd p ms (s, f)) =
     ((\<lambda>a. fadd rnd a (rnd (weight p))) ^^ length (filter (qualifies rnd p) ms)) s"
  by (induction ms arbitrary: s f) (simp_all add: funpow_Suc_right del: funpow.simps(2))

lemma scorePatterns_mono:
  assumes "mono rnd" and "\<forall>x. rnd (rnd x) = rnd x"
    and "\<forall>p\<in>set ps. 0 \<le> rnd (weight p) \<and> qualifyingCount rnd p t1 \<le> qualifyingCount rnd p t2"
    and "rnd s1 = s1" and "rnd s2 = s2" and "s1 \<le> s2"
  shows "fst (scorePatterns rnd t1 ps (s1, f1)) \<le> fst (scorePatterns rnd t2 ps (s2, f2))"
  using assms(3-6)
proof (induction ps arbitrary: s1 s2 f1 f2)
  case Nil
  then show ?case by simp
next
  case (Cons p ps)
  let ?g = "\<lambda>a. fadd rnd a (rnd (weight p))"
  obtain a1 g1 where m1: "scoreMatches rnd p (matchAll False (apPattern p) t1) (s1, f1) = (a1, g1)"
    by (cases "scoreMatches rnd p (matchAll False (apPattern p) t1) (s1, f1)")
  obtain a2 g2 where m2: "scoreMatches rnd p (matchAll False (apPattern p) t2) (s2, f2) = (a2, g2)"
    by (cases "scoreMatches rnd p (matchAll False (apPattern p) t2) (s2, f2)")
  have a1: "a1 = (?g ^^ qualifyingCount rnd p t1) s1"
    using scoreMatches_fst [of rnd p "matchAll False (apPattern p) t1" s1 f1] m1
    by (simp add: qualifyingCount_def)
  have a2: "a2 = (?g ^^ qualifyingCount rnd p t2) s2"
    using scoreMatches_fst [of rnd p "matchAll False (apPattern p) t2" s2 f2] m2
    by (simp add: qualifyingCount_def)
  have w: "0 \<le> rnd (weight p)" and q: "qualifyingCount rnd p t1 \<le> qualifyingCount rnd p t2"
    using Cons.prems(1) by simp_all
  have le: "a1 \<le> a2"
    unfolding a1 a2
    using assms(1,2) w Cons.prems(2,3,4) q by (rule bump_pow_mono)
  have fx1: "rnd a1 = a1"
    unfolding a1 using assms(2) Cons.prems(2) by (rule bump_pow_fixed)
  have fx2: "rnd a2 = a2"
    unfolding a2 using assms(2) Cons.prems(3) by (rule bump_pow_fixed)
  have rest: "\<forall>p\<in>set ps. 0 \<le> rnd (weight p) \<and> qualifyingCount rnd p t1 \<le> qualifyingCount rnd p t2"
    using Cons.prems(1) by simp
  show ?case
    using Cons.IH [OF rest fx1 fx2 le, of g1 g2] m1 m2 by simp
qed

lemma activityPatterns_weights: "\<forall>p\<in>set activityPatterns. 0 \<le> weight p"
  by (simp add: activityPatterns_def)

lemma estimatePosts_mono:
  assumes "mono rnd" and "rnd 0 = 0" and "x \<le> y"
  shows "estimatePosts rnd x \<le> estimatePosts rnd y"
proof -
  have "rnd 0 \<le> rnd 2.5" using assms(1) by (simp add: monoD)
  then have "0 \<le> rnd 2.5" using assms(2) by simp
  then have "x / rnd 2.5 \<le> y / rnd 2.5" using assms(3) by (rule divide_right_mono [rotated])
  then have "rnd (x / rnd 2.5) \<le> rnd (y / rnd 2.5)" using assms(1) by (simp add: monoD)
  then have "\<lfloor>rnd (x / rnd 2.5)\<rfloor> \<le> \<lfloor>rnd (y / rnd 2.5)\<rfloor>" by (rule floor_mono)
  then show ?thesis by (simp add: estimatePosts_def fdiv_def)
qed

text \<open>
  Claim C8. Let the arithmetic round monotonically, leave rounded values and 0
  unchanged. Take two documents with the same contextual and structural scores. If no
  time pattern has fewer qualifying matches in the second document than in the first,
  the estimate for the second is not smaller than the estimate for the first.
\<close>

theorem estimate_monotone:
  assumes "mono rnd" and "\<forall>x. rnd (rnd x) = rnd x" and "rnd 0 = 0"
    and "body doc1 = Some b1" and "body doc2 = Some b2"
    and "\<forall>p\<in>set activityPatterns.
           qualifyingCount rnd p (toLowerCase (bodyText b1)) \<le>
           qualifyingCount rnd p (toLowerCase (bodyText b2))"
    and "scoreKeywords rnd (toLowerCase (bodyText b1)) activityKeywords 0 =
         scoreKeywords rnd (toLowerCase (bodyText b2)) activityKeywords 0"
    and "scoreStructure rnd (toLowerCase (innerHTML b1)) linkedinPatterns 0 =
         scoreStructure rnd (toLowerCase (innerHTML b2)) linkedinPatterns 0"
  shows "count (performAdvancedFallbackDetection rnd doc1) \<le>
         count (performAdvancedFallbackDetection rnd doc2)"
proof -
  let ?t1 = "fst (scorePatterns rnd (toLowerCase (bodyText b1)) activityPatterns (0, []))"
  let ?t2 = "fst (scorePatterns rnd (toLowerCase (bodyText b2)) activityPatterns (0, []))"
  let ?c = "scoreKeywords rnd (toLowerCase (bodyText b2)) activityKeywords 0"
  let ?s = "scoreStructure rnd (toLowerCase (innerHTML b2)) linkedinPatterns 0"
  have "\<forall>p\<in>set activityPatterns. rnd 0 \<le> rnd (weight p)"
    using assms(1) activityPatterns_weights by (simp add: monoD)
  then have w: "\<forall>p\<in>set activityPatterns. 0 \<le> rnd (weight p) \<and>
           qualifyingCount rnd p (toLowerCase (bodyText b1)) \<le>
           qualifyingCount rnd p (toLowerCase (bodyText b2))"
    using assms(3,6) by simp
  have "?t1 \<le> ?t2"
    using assms(1,2) w assms(3,3) by (rule scorePatterns_mono) simp
  then have "rnd (?t1 + ?c) \<le> rnd (?t2 + ?c)"
    using assms(1) by (simp add: monoD)
  then have "rnd (rnd (?t1 + ?c) + ?s) \<le> rnd (rnd (?t2 + ?c) + ?s)"
    using assms(1) by (simp add: monoD)
  then have "estimatePosts rnd (fadd rnd (fadd rnd ?t1 ?c) ?s) \<le>
             estimatePosts rnd (fadd rnd (fadd rnd ?t2 ?c) ?s)"
    using assms(1,3) by (simp add: fadd_def estimatePosts_mono)
  then show ?thesis
    using assms(4,5,7,8) by (simp add: performAdvancedFallbackDetection_def Let_def)
qed

section \<open>The orchestrator and the estimator on the example pages\<close>

text \<open>
  The statement for C3 on the page whose properties cannot be read (the error record)
  and on the empty page (no error).
\<close>

theorem analyzeCurrentProfile_total_witness:
  "analyzeCurrentProfile (\<lambda>x. x) fixedHost brokenDoc =
     \<lparr>postCount = 0, profileName = ''Error'', analyzedAt = 1700000006000,
      url = ''https://www.linkedin.com/in/jane-doe/'', posts = None,
      error = Some ''document is not available'',
      debug = DebugError ''document is not available''\<rparr> \<and>
   error (analyzeCurrentProfile (\<lambda>x. x) fixedHost emptyDoc) = None"
proof -
  have b: "extractProfileData (\<lambda>x. x) fixedHost brokenDoc = Inl (Error ''document is not available'')"
    by (simp add: extractProfileData_def brokenDoc_def)
  obtain r where e: "extractProfileData (\<lambda>x. x) fixedHost emptyDoc = Inr r"
    by (simp add: extractProfileData_def emptyDoc_def Let_def)
  show ?thesis
    using analyzeCurrentProfile_total [of "\<lambda>x. x" fixedHost brokenDoc] b
      analyzeCurrentProfile_total [of "\<lambda>x. x" fixedHost emptyDoc] e
    by (simp add: brokenDoc_def fixedHost_def)
qed

text \<open>
  Against claim C4 as stated: on a page without fragments whose text reads
  "1h 2h 3h 4h" the estimate is 2, so \<open>postCount\<close> is 2 while the posts hold the one
  fallback record; nothing was cut to 10.
\<close>

theorem postCount_counterexample:
  "(case extractProfileData (\<lambda>x. x) fixedHost estimateDoc of
      Inl e \<Rightarrow> False
    | Inr r \<Rightarrow> postCount r = 2 \<and> map_option length (posts r) = Some 1)"
  by code_simp

lemma overlap_scan_nonempty:
  "foundPosts (findRecentPostsEnhanced (dateParser fixedHost) (scanTime fixedHost) overlapDoc
                 (startTime fixedHost - 24 * 60 * 60 * 1000)) \<noteq> []"
  by code_simp

lemma estimateDoc_scan:
  "foundPosts (findRecentPostsEnhanced (dateParser fixedHost) (scanTime fixedHost) estimateDoc
                 (startTime fixedHost - 24 * 60 * 60 * 1000)) = []"
  by code_simp

lemma estimateDoc_count: "count (performAdvancedFallbackDetection (\<lambda>x. x) estimateDoc) = 2"
  by code_simp

text \<open>
  The statement for C4 on the page where the scan finds a record, and on the page where
  it finds none and the estimate is 2.
\<close>

theorem postCount_and_posts_witness:
  "(\<exists>r ps. extractProfileData (\<lambda>x. x) fixedHost overlapDoc = Inr r \<and>
           posts r = Some ps \<and> postCount r = int (length ps)) \<and>
   (\<exists>r. extractProfileData (\<lambda>x. x) fixedHost estimateDoc = Inr r \<and> postCount r = 2 \<and>
        posts r = Some [displayPost (fallbackPost
                         (performAdvancedFallbackDetection (\<lambda>x. x) estimateDoc))])"
proof -
  obtain r where e: "extractProfileData (\<lambda>x. x) fixedHost overlapDoc = Inr r"
    by (simp add: extractProfileData_def overlapDoc_def Let_def)
  obtain r' where e': "extractProfileData (\<lambda>x. x) fixedHost estimateDoc = Inr r'"
    by (simp add: extractProfileData_def estimateDoc_def Let_def)
  have a: "\<exists>ps. posts r = Some ps \<and> postCount r = int (length ps)"
    using postCount_and_posts [OF e] overlap_scan_nonempty by blast
  have b: "postCount r' = 2 \<and>
           posts r' = Some [displayPost (fallbackPost
                         (performAdvancedFallbackDetection (\<lambda>x. x) estimateDoc))]"
    using postCount_and_posts [OF e'] estimateDoc_scan estimateDoc_count by auto
  show ?thesis
    using e e' a b by blast
qed

lemma estimateDoc_details:
  "details (performAdvancedFallbackDetection (\<lambda>x. x) estimateDoc) =
     Inr \<lparr>timePatternScore = 6, contextualActivity = 0, structuralActivity = 0,
          totalScore = 6, foundMatches = [''1h '', ''2h '', ''3h '', ''4h''],
          uniqueMatches = 4\<rparr>"
  by code_simp

text \<open>
  The statement for C7 with exact arithmetic on the page reading "1h 2h 3h 4h": the
  total is 6 and the estimate is \<open>\<lfloor>6 / 2.5\<rfloor> = 2\<close>.
\<close>

theorem estimate_formula_and_bounds_witness:
  "count (performAdvancedFallbackDetection (\<lambda>x. x) estimateDoc) = max 0 (min \<lfloor>(6::real) / 2.5\<rfloor> 12) \<and>
   count (performAdvancedFallbackDetection (\<lambda>x. x) estimateDoc) = 2"
proof -
  have b: "body estimateDoc = Some \<lparr>bodyText = ''1h 2h 3h 4h'', innerHTML = ''1h 2h 3h 4h''\<rparr>"
    by (simp add: estimateDoc_def)
  show ?thesis
    using estimate_formula_and_bounds [of "\<lambda>x. x" estimateDoc] b estimateDoc_details
    by (auto simp: fdiv_def)
qed

lemma small_counts:
  "\<forall>p\<in>set activityPatterns.
     qualifyingCount (\<lambda>x. x) p (toLowerCase ''1h 2h'') \<le>
     qualifyingCount (\<lambda>x. x) p (toLowerCase ''1h 2h 3h 4h'')"
  by code_simp

lemma small_context:
  "scoreKeywords (\<lambda>x. x) (toLowerCase ''1h 2h'') activityKeywords 0 =
   scoreKeywords (\<lambda>x. x) (toLowerCase ''1h 2h 3h 4h'') activityKeywords 0"
  by code_simp

lemma small_structure:
  "scoreStructure (\<lambda>x. x) (toLowerCase ''1h 2h'') linkedinPatterns 0 =
   scoreStructure (\<lambda>x. x) (toLowerCase ''1h 2h 3h 4h'') linkedinPatterns 0"
  by code_simp

text \<open>
  The statement for C8 with exact arithmetic: the page reading "1h 2h" against the
  page reading "1h 2h 3h 4h".
\<close>

theorem estimate_monotone_witness:
  "count (performAdvancedFallbackDetection (\<lambda>x. x) smallEstimateDoc) \<le>
   count (performAdvancedFallbackDetection (\<lambda>x. x) estimateDoc)"
proof -
  have m: "mono (\<lambda>x::real. x)"
    by (simp add: mono_def)
  have i: "\<forall>x::real. (\<lambda>x. x) ((\<lambda>x. x) x) = (\<lambda>x. x) x"
    by simp
  have z: "(\<lambda>x::real. x) 0 = 0"
    by simp
  have b1: "body smallEstimateDoc = Some \<lparr>bodyText = ''1h 2h'', innerHTML = ''1h 2h''\<rparr>"
    by (simp add: smallEstimateDoc_def)
  have b2: "body estimateDoc = Some \<lparr>bodyText = ''1h 2h 3h 4h'', innerHTML = ''1h 2h 3h 4h''\<rparr>"
    by (simp add: estimateDoc_def)
  show ?thesis
    by (rule estimate_monotone [where rnd = "\<lambda>x. x", OF m i z b1 b2])
      (simp_all add: small_counts small_context small_structure)
qed

lemma small_count_value: "count (performAdvancedFallbackDetection (\<lambda>x. x) smallEstimateDoc) = 1"
  by code_simp

lemma emptyDoc_name: "extractProfileNameEnhanced emptyDoc = ''Unknown''"
  by code_simp

lemma emptyDoc_scan:
  "foundPosts (findRecentPostsEnhanced (dateParser fixedHost) (scanTime fixedHost) emptyDoc
                 (startTime fixedHost - 24 * 60 * 60 * 1000)) = []"
  by code_simp

lemma emptyDoc_estimate: "count (performAdvancedFallbackDetection (\<lambda>x. x) emptyDoc) = 0"
  by code_simp

lemma name_check_Jane_Doe: "emergencyNameCheck ''Jane Doe''"
  by code_simp

lemma emptyDoc_result_name:
  "(case extractProfileData (\<lambda>x. x) fixedHost emptyDoc of
      Inl e \<Rightarrow> False
    | Inr r \<Rightarrow> profileName r = ''Unknown'')"
  by code_simp

text \<open>
  The statement for C9 on the empty page, where the emergency pass runs, and at the
  name "Jane Doe", which both checks accept.
\<close>

theorem emergency_pass_gate_witness:
  "isValidProfileName ''Jane Doe'' \<and>
   (\<exists>r d. extractProfileData (\<lambda>x. x) fixedHost emptyDoc = Inr r \<and> debug r = Debug d \<and>
          usedEmergencyAnalysis d \<and> profileName r = ''Unknown'')"
proof -
  obtain r where e: "extractProfileData (\<lambda>x. x) fixedHost emptyDoc = Inr r"
    by (simp add: extractProfileData_def emptyDoc_def Let_def)
  have p: "profileName r = ''Unknown''"
    using e emptyDoc_result_name by simp
  show ?thesis
    using emergency_pass_gate [OF e, of "''Jane Doe''"] name_check_Jane_Doe emptyDoc_name
      emptyDoc_scan emptyDoc_estimate e p
    by auto
qed

end
